theory Spec2Isabelle
  imports Complex_Main
begin

section \<open>The shared ring buffer (utils/RingBuffer.js)\<close>

text \<open>
  The SharedArrayBuffer holds a header of three Int32 slots (write pointer, read pointer,
  capacity) followed by the Float32 sample data. The two pointers are array indices: the
  code only ever stores 0, a previously loaded pointer, or \<open>(index + 1) % capacity\<close> into
  them, so they are modelled as natural numbers (an index is below the capacity, which is
  below \<open>2^31\<close> for any buffer that can be allocated, so an Int32 slot holds it
  unchanged). Counts computed from them by subtraction
  (\<open>availableRead\<close>, \<open>availableWrite\<close>, the value returned by \<open>write\<close> and \<open>read\<close>) are
  JavaScript numbers that the arithmetic alone does not keep non-negative, so they are
  integers here. The sample type is a parameter: the buffer only copies samples.

  Every endpoint (\<open>RingBufferWriter\<close>, \<open>RingBufferReader\<close>) keeps its own \<open>capacity\<close> field
  and a \<open>Float32Array\<close> view of that \<open>capacity\<close> on the data; the functions below take
  this field as their first argument.
\<close>

record 'a shared_buffer =
  writePtr :: nat
  readPtr :: nat
  capacitySlot :: nat
  sampleData :: "'a list"

definition createRingBuffer :: "nat \<Rightarrow> ('a::zero) shared_buffer" where
  "createRingBuffer capacity =
     \<lparr>writePtr = 0, readPtr = 0, capacitySlot = capacity, sampleData = replicate capacity 0\<rparr>"

text \<open>\<open>availableWrite(writePtr, readPtr)\<close> with its two parameters given, and with their
  defaults (the pointers loaded from the header).\<close>

definition availableWrite_at :: "nat \<Rightarrow> nat \<Rightarrow> nat \<Rightarrow> int" where
  "availableWrite_at capacity wp rp =
     (if rp \<le> wp then int capacity - int wp + int rp - 1 else int rp - int wp - 1)"

definition availableWrite :: "nat \<Rightarrow> 'a shared_buffer \<Rightarrow> int" where
  "availableWrite capacity m = availableWrite_at capacity (writePtr m) (readPtr m)"

definition availableRead :: "nat \<Rightarrow> 'a shared_buffer \<Rightarrow> int" where
  "availableRead capacity m =
     (if writePtr m \<ge> readPtr m then int (writePtr m) - int (readPtr m)
      else int capacity - int (readPtr m) + int (writePtr m))"

definition isFull :: "nat \<Rightarrow> 'a shared_buffer \<Rightarrow> bool" where
  "isFull capacity m = (availableWrite capacity m = 0)"

definition isEmpty :: "nat \<Rightarrow> 'a shared_buffer \<Rightarrow> bool" where
  "isEmpty capacity m = (availableRead capacity m = 0)"

text \<open>The copy loop of \<open>write\<close>: one sample per iteration, the index wrapping modulo the
  capacity. A store outside a typed array is ignored, as \<open>xs[i := v]\<close> is.\<close>

fun write_loop :: "nat \<Rightarrow> 'a list \<Rightarrow> nat \<Rightarrow> 'a list \<Rightarrow> 'a list \<times> nat" where
  "write_loop capacity buf writeIndex [] = (buf, writeIndex)"
| "write_loop capacity buf writeIndex (s # ss) =
     write_loop capacity (buf[writeIndex := s]) ((writeIndex + 1) mod capacity) ss"

definition RingBufferWriter_write ::
  "nat \<Rightarrow> 'a shared_buffer \<Rightarrow> 'a list \<Rightarrow> int \<times> 'a shared_buffer" where
  "RingBufferWriter_write capacity m samples =
     (let wp = writePtr m;
          rp = readPtr m;
          available = availableWrite_at capacity wp rp;
          toWrite = min (int (length samples)) available
      in if toWrite = 0 then (0, m)
         else (case write_loop capacity (sampleData m) wp (take (nat toWrite) samples) of
                 (buf, writeIndex) \<Rightarrow>
                   (toWrite, m\<lparr>sampleData := buf, writePtr := writeIndex\<rparr>)))"

text \<open>The copy loop of \<open>read\<close>, \<open>peek\<close> and the worker's \<open>readFromBuffer\<close>: \<open>i\<close> is the
  loop counter (the position in \<open>destination\<close>), the last argument the number of
  iterations left. The read index stays inside the data in every valid buffer
  (\<open>rb_valid\<close> below), where the theorems about reading are stated.\<close>

fun read_loop :: "nat \<Rightarrow> 'a list \<Rightarrow> nat \<Rightarrow> 'a list \<Rightarrow> nat \<Rightarrow> nat \<Rightarrow> 'a list \<times> nat" where
  "read_loop capacity buf readIndex dest i 0 = (dest, readIndex)"
| "read_loop capacity buf readIndex dest i (Suc n) =
     read_loop capacity buf ((readIndex + 1) mod capacity) (dest[i := buf ! readIndex]) (i + 1) n"

definition RingBufferReader_read ::
  "nat \<Rightarrow> 'a shared_buffer \<Rightarrow> 'a list \<Rightarrow> int \<times> 'a list \<times> 'a shared_buffer" where
  "RingBufferReader_read capacity m destination =
     (let wp = writePtr m;
          rp = readPtr m;
          available = (if wp \<ge> rp then int wp - int rp else int capacity - int rp + int wp);
          toRead = min (int (length destination)) available
      in if toRead = 0 then (0, destination, m)
         else (case read_loop capacity (sampleData m) rp destination 0 (nat toRead) of
                 (dest, readIndex) \<Rightarrow> (toRead, dest, m\<lparr>readPtr := readIndex\<rparr>)))"

definition RingBufferWriter_reset :: "'a shared_buffer \<Rightarrow> 'a shared_buffer" where
  "RingBufferWriter_reset m = m\<lparr>writePtr := 0, readPtr := 0\<rparr>"

definition RingBufferReader_reset :: "'a shared_buffer \<Rightarrow> 'a shared_buffer" where
  "RingBufferReader_reset m = m\<lparr>readPtr := writePtr m\<rparr>"

text \<open>The states the code can reach from \<open>createRingBuffer\<close> through endpoints built with
  the same capacity: both pointers are indices of the data view.\<close>

definition rb_valid :: "nat \<Rightarrow> 'a shared_buffer \<Rightarrow> bool" where
  "rb_valid capacity m \<longleftrightarrow>
     0 < capacity \<and> writePtr m < capacity \<and> readPtr m < capacity \<and>
     length (sampleData m) = capacity"

text \<open>The unread samples of a buffer, oldest first: the \<open>n\<close> slots from the read pointer
  on, wrapping at the capacity. This is the queue the ring buffer represents.\<close>

definition ring_list :: "nat \<Rightarrow> 'a list \<Rightarrow> nat \<Rightarrow> nat \<Rightarrow> 'a list" where
  "ring_list capacity buf rp n = map (\<lambda>j. buf ! ((rp + j) mod capacity)) [0..<n]"

definition contents :: "nat \<Rightarrow> 'a shared_buffer \<Rightarrow> 'a list" where
  "contents capacity m =
     ring_list capacity (sampleData m) (readPtr m) (nat (availableRead capacity m))"

text \<open>Sequences of producer and consumer operations on one buffer, and the producer pushing
  chunk after chunk with no read in between; as \<open>process\<close> does, what a \<open>write\<close> did not
  take (\<open>samples.length - written\<close>) counts as dropped.\<close>

datatype 'a rb_op = Write "'a list" | Read "'a list" | WriterReset | ReaderReset

fun apply_op :: "nat \<Rightarrow> 'a shared_buffer \<Rightarrow> 'a rb_op \<Rightarrow> 'a shared_buffer" where
  "apply_op capacity m (Write samples) = snd (RingBufferWriter_write capacity m samples)"
| "apply_op capacity m (Read destination) = snd (snd (RingBufferReader_read capacity m destination))"
| "apply_op capacity m WriterReset = RingBufferWriter_reset m"
| "apply_op capacity m ReaderReset = RingBufferReader_reset m"

definition run_ops :: "nat \<Rightarrow> 'a shared_buffer \<Rightarrow> 'a rb_op list \<Rightarrow> 'a shared_buffer" where
  "run_ops capacity m ops = foldl (apply_op capacity) m ops"

fun push_all :: "nat \<Rightarrow> 'a shared_buffer \<Rightarrow> 'a list list \<Rightarrow> int \<times> 'a shared_buffer" where
  "push_all capacity m [] = (0, m)"
| "push_all capacity m (samples # rest) =
     (case RingBufferWriter_write capacity m samples of
        (written, m') \<Rightarrow>
          (case push_all capacity m' rest of
             (dropped, m'') \<Rightarrow> (int (length samples) - written + dropped, m'')))"

section \<open>Inference constants, emotion vectors and the smoother\<close>

text \<open>
  \<open>utils/inference.js\<close> (main thread) and \<open>workers/inference.js\<close> (worker) carry the
  same constants and the same \<open>EmaSmoother\<close>, \<open>softmax\<close>, \<open>getDominant\<close> and silence
  builder (\<open>buildSilenceResult\<close> there, \<open>buildSilencePayload\<close> here); they are modelled
  once. JavaScript numbers that hold samples, probabilities and rates are IEEE doubles;
  they are real numbers here, and an arithmetic expression of the code is the same
  expression over the reals, without the rounding a double operation performs and without
  the values \<open>Infinity\<close> and \<open>NaN\<close>. What is proved below of a computed number is
  therefore proved of the expression the code evaluates, or of values no rounding touches
  (0, 1, a sample that is copied); nothing is claimed that depends on how a sum, a product
  or an exponential is rounded. Timestamps (\<open>Date.now()\<close>, milliseconds) are integers.

  An emotion object is the list of its entries in insertion order, which is the order
  \<open>Object.entries\<close> walks; \<open>values[label] ?? 0\<close> is \<open>or_zero (map_of values label)\<close>.
\<close>

definition EMOTION_LABELS :: "string list" where
  "EMOTION_LABELS =
     [''angry'', ''disgust'', ''fearful'', ''happy'', ''neutral'', ''sad'', ''surprised'', ''calm'']"

definition TARGET_SAMPLE_RATE :: real where "TARGET_SAMPLE_RATE = 16000"
definition INFERENCE_WINDOW_SAMPLES :: nat where "INFERENCE_WINDOW_SAMPLES = 2376"
definition HOP_DURATION_SECONDS :: real where "HOP_DURATION_SECONDS = 0.5"
definition HOP_SIZE_SAMPLES :: nat where
  "HOP_SIZE_SAMPLES =
     nat (min (int INFERENCE_WINDOW_SAMPLES - 1)
              (max 1 \<lfloor>TARGET_SAMPLE_RATE * HOP_DURATION_SECONDS\<rfloor>))"
definition NOISE_GATE_THRESHOLD :: real where "NOISE_GATE_THRESHOLD = 0.01"
definition VOICE_HOLD_MS :: int where "VOICE_HOLD_MS = 800"
definition EMA_ALPHA :: real where "EMA_ALPHA = 0.2"

type_synonym emotion_vector = "(string \<times> real) list"

definition or_zero :: "real option \<Rightarrow> real" where
  "or_zero v = (case v of None \<Rightarrow> 0 | Some x \<Rightarrow> x)"

definition NEUTRAL_VECTOR :: emotion_vector where
  "NEUTRAL_VECTOR = map (\<lambda>label. (label, if label = ''neutral'' then 1 else 0)) EMOTION_LABELS"

text \<open>\<open>class EmaSmoother\<close>: \<open>state\<close> is \<open>null\<close> (\<open>None\<close>) until the first update.
  The functions return the value the method returns together with the smoother after it.\<close>

record EmaSmoother =
  alpha :: real
  state :: "emotion_vector option"

definition EmaSmoother_new :: "real \<Rightarrow> EmaSmoother" where
  "EmaSmoother_new a = \<lparr>alpha = a, state = None\<rparr>"

definition EmaSmoother_update :: "EmaSmoother \<Rightarrow> emotion_vector \<Rightarrow> emotion_vector \<times> EmaSmoother" where
  "EmaSmoother_update s values =
     (case state s of
        None \<Rightarrow> (values, s\<lparr>state := Some values\<rparr>)
      | Some prev_state \<Rightarrow>
          (let smoothed = map (\<lambda>label.
                 (let next = or_zero (map_of values label);
                      prev = or_zero (map_of prev_state label)
                  in (label, alpha s * next + (1 - alpha s) * prev))) EMOTION_LABELS
           in (smoothed, s\<lparr>state := Some smoothed\<rparr>)))"

definition EmaSmoother_reset :: "EmaSmoother \<Rightarrow> EmaSmoother" where
  "EmaSmoother_reset s = s\<lparr>state := None\<rparr>"

definition EmaSmoother_getState :: "EmaSmoother \<Rightarrow> emotion_vector option" where
  "EmaSmoother_getState s = state s"

text \<open>\<open>softmax\<close>: \<open>Math.max(...logits)\<close> folds \<open>max\<close> over the logits and \<open>reduce\<close> adds
  the scores up from 0. On an empty array \<open>Math.max()\<close> is never used by the two \<open>map\<close>s,
  which return the empty array. The exponential, the sum and the quotients are those of
  the reals: the function gives the formula the code evaluates, not the doubles it
  returns, and nothing is proved of its sum or of its behaviour under a shift of the
  logits. It is evaluated below on equal logits only, where \<open>exp(0)\<close> = 1, the sum of
  eight ones and the quotient 1/8 are exact in doubles too.\<close>

fun softmax :: "real list \<Rightarrow> real list" where
  "softmax [] = []"
| "softmax (x # xs) =
     (let logits = x # xs;
          maxLogit = foldl max x xs;
          expScores = map (\<lambda>v. exp (v - maxLogit)) logits;
          sumExp = foldl (+) 0 expScores
      in map (\<lambda>v. v / sumExp) expScores)"

definition calculateRMSInRange :: "real list \<Rightarrow> int \<Rightarrow> int \<Rightarrow> real" where
  "calculateRMSInRange samples start end =
     (let clampedStart = max 0 start;
          clampedEnd = min (int (length samples)) end;
          len = clampedEnd - clampedStart
      in if len \<le> 0 then 0
         else (let sumSquares = foldl (\<lambda>acc v. acc + v * v) 0
                       (take (nat len) (drop (nat clampedStart) samples))
               in sqrt (sumSquares / real_of_int len)))"

definition calculateRMS :: "real list \<Rightarrow> real" where
  "calculateRMS samples = calculateRMSInRange samples 0 (int (length samples))"

definition getDominant :: "emotion_vector \<Rightarrow> string \<times> real" where
  "getDominant emotions =
     foldl (\<lambda>(dominant, confidence) (label, v).
              if v > confidence then (label, v) else (dominant, confidence))
       (''neutral'', 0) emotions"

record prediction =
  emotions :: emotion_vector
  rawEmotions :: emotion_vector
  dominant :: string
  confidence :: real
  inferenceTime :: real
  timestamp :: int
  isSilence :: bool

text \<open>The silence builder reads and updates two module variables, the smoother and
  \<open>lastVoicedTimestamp\<close>; they are its first two arguments here, and the smoother after
  the call is returned with the payload.\<close>

definition buildSilencePayload ::
  "EmaSmoother \<Rightarrow> int \<Rightarrow> int \<Rightarrow> prediction \<times> EmaSmoother" where
  "buildSilencePayload smoother lastVoiced ts =
     (let holdActive = (ts - lastVoiced < VOICE_HOLD_MS \<and> lastVoiced > 0);
          (baselineState, smoother') =
             (if holdActive
              then (case EmaSmoother_getState smoother of
                      Some st \<Rightarrow> (st, smoother)
                    | None \<Rightarrow> (NEUTRAL_VECTOR, smoother))
              else EmaSmoother_update smoother NEUTRAL_VECTOR);
          (best, conf) = getDominant baselineState
      in (\<lparr>emotions = baselineState, rawEmotions = baselineState, dominant = best,
            confidence = conf, inferenceTime = 0, timestamp = ts, isSilence = True\<rparr>,
          smoother'))"

text \<open>\<open>const probabilitySmoother = new EmaSmoother(EMA_ALPHA)\<close>.\<close>

definition probabilitySmoother_init :: EmaSmoother where
  "probabilitySmoother_init = EmaSmoother_new EMA_ALPHA"

section \<open>Endpoints on the shared buffer\<close>

text \<open>
  The capture processor and the inference worker are handed a SharedArrayBuffer in a
  message and build their own typed-array views on it. A buffer is referred to by a
  number, and the heap gives the contents of each buffer; a view field (\<open>controlBuffer\<close>,
  \<open>dataBuffer\<close>) is null (\<open>None\<close>) or the number of the buffer it was built on. Two
  endpoints holding the same number share the cursors and the data.
\<close>

type_synonym 'a heap = "nat \<Rightarrow> 'a shared_buffer"

record endpoint =
  sharedBuffer :: "nat option"
  controlBuffer :: "nat option"
  dataBuffer :: "nat option"
  capacity :: nat

subsection \<open>The capture processor (audio-processor.js)\<close>

record AudioProcessor = endpoint +
  isInitialized :: bool
  inputSampleRate :: real
  targetSampleRate :: real
  resampleRatio :: real
  resampleBuffer :: "real list"

definition AudioProcessor_new :: "real \<Rightarrow> AudioProcessor" where
  "AudioProcessor_new sampleRate =
     \<lparr>sharedBuffer = None, controlBuffer = None, dataBuffer = None, capacity = 0,
      isInitialized = False, inputSampleRate = sampleRate, targetSampleRate = 16000,
      resampleRatio = sampleRate / 16000, resampleBuffer = []\<rparr>"

text \<open>\<open>initializeBuffer\<close> builds the two views inside a \<open>try\<close>. The header view fits every
  buffer \<open>createRingBuffer\<close> makes. \<open>new Float32Array(sharedBuffer, 12, capacity)\<close> throws a
  RangeError when \<open>capacity\<close> samples do not fit in the buffer after the header; the
  assignments before it have been made by then, \<open>dataBuffer\<close> and \<open>isInitialized\<close> keep
  their values, and the \<open>catch\<close> posts the error. The first component is the message
  posted: \<open>None\<close> for \<open>initialized\<close>, the error for \<open>error\<close>.\<close>

datatype js_error = RangeError

definition AudioProcessor_initializeBuffer ::
  "AudioProcessor \<Rightarrow> 'a heap \<Rightarrow> nat \<Rightarrow> nat \<Rightarrow> js_error option \<times> AudioProcessor" where
  "AudioProcessor_initializeBuffer p h buffer cap =
     (let p1 = p\<lparr>sharedBuffer := Some buffer, capacity := cap, controlBuffer := Some buffer\<rparr>
      in if cap \<le> length (sampleData (h buffer))
         then (None, p1\<lparr>dataBuffer := Some buffer, isInitialized := True\<rparr>)
         else (Some RangeError, p1))"

definition resetBuffer :: "AudioProcessor \<Rightarrow> 'a heap \<Rightarrow> AudioProcessor \<times> 'a heap" where
  "resetBuffer p h =
     (p\<lparr>resampleBuffer := []\<rparr>,
      (case controlBuffer p of
         None \<Rightarrow> h
       | Some c \<Rightarrow> h(c := (h c)\<lparr>writePtr := 0, readPtr := 0\<rparr>)))"

definition writeToBuffer :: "AudioProcessor \<Rightarrow> 'a heap \<Rightarrow> 'a list \<Rightarrow> int \<times> 'a heap" where
  "writeToBuffer p h samples =
     (if \<not> isInitialized p \<or> controlBuffer p = None \<or> dataBuffer p = None then (0, h)
      else (let c = the (controlBuffer p);
                d = the (dataBuffer p);
                wp = writePtr (h c);
                rp = readPtr (h c);
                available = (if rp \<le> wp then int (capacity p) - int wp + int rp - 1
                             else int rp - int wp - 1);
                toWrite = min (int (length samples)) available
            in if toWrite = 0 then (0, h)
               else (case write_loop (capacity p) (sampleData (h d)) wp
                            (take (nat toWrite) samples) of
                       (buf, writeIndex) \<Rightarrow>
                         (let h1 = h(d := (h d)\<lparr>sampleData := buf\<rparr>)
                          in (toWrite, h1(c := (h1 c)\<lparr>writePtr := writeIndex\<rparr>))))))"

text \<open>The interpolation loop shared by \<open>AudioProcessor.resample\<close> and \<open>resampleAudio\<close>:
  \<open>phase\<close> is the fractional source position, advanced by \<open>ratio\<close> after every output
  sample. An index outside the buffer would read \<open>undefined\<close>; with a positive ratio and
  the output counts the two callers compute, the source position stays inside the buffer
  (lemmas \<open>resample_reads_in_range\<close> and \<open>resampleAudio_reads_in_range\<close>).\<close>

fun interpolate_loop :: "real list \<Rightarrow> real \<Rightarrow> real \<Rightarrow> nat \<Rightarrow> real list" where
  "interpolate_loop buf ratio phase 0 = []"
| "interpolate_loop buf ratio phase (Suc n) =
     (let srcIndex = phase;
          srcIndexFloor = \<lfloor>srcIndex\<rfloor>;
          srcIndexCeil = min (srcIndexFloor + 1) (int (length buf) - 1);
          t = srcIndex - real_of_int srcIndexFloor
      in (buf ! nat srcIndexFloor * (1 - t) + buf ! nat srcIndexCeil * t)
         # interpolate_loop buf ratio (phase + ratio) n)"

definition resample :: "AudioProcessor \<Rightarrow> real list \<Rightarrow> real list \<times> AudioProcessor" where
  "resample p inputSamples =
     (let buf = resampleBuffer p @ inputSamples;
          ratio = resampleRatio p
      in if real (length buf) < ratio then ([], p\<lparr>resampleBuffer := buf\<rparr>)
         else (let outputSamples = \<lfloor>real (length buf) / ratio\<rfloor>;
                   output = interpolate_loop buf ratio 0 (nat outputSamples);
                   consumed = \<lfloor>real_of_int outputSamples * ratio\<rfloor>
               in (output, p\<lparr>resampleBuffer := drop (nat consumed) buf\<rparr>)))"

text \<open>Successive audio callbacks: each block goes through \<open>resample\<close>, the outputs are
  concatenated in order.\<close>

fun resample_blocks :: "AudioProcessor \<Rightarrow> real list list \<Rightarrow> real list \<times> AudioProcessor" where
  "resample_blocks p [] = ([], p)"
| "resample_blocks p (block # blocks) =
     (case resample p block of
        (out, p') \<Rightarrow>
          (case resample_blocks p' blocks of (outs, p'') \<Rightarrow> (out @ outs, p'')))"

text \<open>\<open>resampleAudio\<close> of utils/audio.js. \<open>Math.round\<close> rounds halves up. Rates are real
  numbers here, hence finite, and a zero rate is the positive zero. Where the code divides
  by zero the outcome is written out:
  \<^item> input rate 0 (the output rate is then not 0): the ratio is 0, the output length is
    \<open>Math.round(Infinity)\<close> for a positive output rate, and \<open>new Float32Array(Infinity)\<close>
    throws a RangeError; for a negative output rate the ratio is the negative zero, the
    length \<open>Math.max(1, -Infinity)\<close> = 1, and the one output sample is the first input
    sample;
  \<^item> output rate 0: the ratio is infinite, the output length is \<open>Math.max(1, 0)\<close> = 1,
    and the one output sample is the first input sample.

  The largest length a typed array can have is not modelled.\<close>

definition Math_round :: "real \<Rightarrow> int" where
  "Math_round x = \<lfloor>x + 1 / 2\<rfloor>"

definition resampleAudio :: "real list \<Rightarrow> real \<Rightarrow> real \<Rightarrow> js_error + real list" where
  "resampleAudio inputBuffer inputRate outputRate =
     (if length inputBuffer = 0 \<or> inputRate = outputRate then Inr inputBuffer
      else if inputRate = 0
      then (if 0 < outputRate then Inl RangeError else Inr [inputBuffer ! 0])
      else if outputRate = 0 then Inr [inputBuffer ! 0]
      else (let ratio = inputRate / outputRate;
                outputLength = max 1 (Math_round (real (length inputBuffer) / ratio))
            in Inr (interpolate_loop inputBuffer ratio 0 (nat outputLength))))"

subsection \<open>The inference worker (workers/inference.js)\<close>

text \<open>The module variables of the worker. A loaded model is an opaque session of which
  only the tensor names are read; what \<open>session.run\<close> answers is an input of the model
  below.\<close>

datatype InferenceSession =
  InferenceSession (inputNames: "string list") (outputNames: "string list")

record worker = endpoint +
  session :: "InferenceSession option"
  isRunning :: bool
  lastVoicedTimestamp :: int
  probabilitySmoother :: EmaSmoother

definition worker_new :: worker where
  "worker_new =
     \<lparr>sharedBuffer = None, controlBuffer = None, dataBuffer = None, capacity = 0,
      session = None, isRunning = False, lastVoicedTimestamp = 0,
      probabilitySmoother = probabilitySmoother_init\<rparr>"

datatype posted =
    PostReady
  | PostBufferInitialized
  | PostStarted
  | PostStopped
  | PostError string
  | PostPrediction prediction

text \<open>The worker's \<open>initializeBuffer\<close> has no \<open>try\<close>: when the data view does not fit the
  buffer the RangeError leaves the function and the message handler, after the first
  three assignments and before \<open>bufferInitialized\<close> is posted.\<close>

definition initializeBuffer ::
  "worker \<Rightarrow> 'a heap \<Rightarrow> nat \<Rightarrow> nat \<Rightarrow> js_error option \<times> worker \<times> posted list" where
  "initializeBuffer w h buffer bufferCapacity =
     (let w1 = w\<lparr>sharedBuffer := Some buffer, capacity := bufferCapacity,
                 controlBuffer := Some buffer\<rparr>
      in if bufferCapacity \<le> length (sampleData (h buffer))
         then (None, w1\<lparr>dataBuffer := Some buffer\<rparr>, [PostBufferInitialized])
         else (Some RangeError, w1, []))"

definition readFromBuffer :: "worker \<Rightarrow> 'a heap \<Rightarrow> 'a list \<Rightarrow> int \<times> 'a list \<times> 'a heap" where
  "readFromBuffer w h destination =
     (if controlBuffer w = None \<or> dataBuffer w = None then (0, destination, h)
      else (let c = the (controlBuffer w);
                d = the (dataBuffer w);
                wp = writePtr (h c);
                rp = readPtr (h c);
                available = (if wp \<ge> rp then int wp - int rp
                             else int (capacity w) - int rp + int wp);
                toRead = min (int (length destination)) available
            in if toRead = 0 then (0, destination, h)
               else (case read_loop (capacity w) (sampleData (h d)) rp destination 0
                            (nat toRead) of
                       (dest, readIndex) \<Rightarrow>
                         (toRead, dest, h(c := (h c)\<lparr>readPtr := readIndex\<rparr>)))))"

definition getAvailableSamples :: "worker \<Rightarrow> 'a heap \<Rightarrow> int" where
  "getAvailableSamples w h =
     (if controlBuffer w = None then 0
      else (let c = the (controlBuffer w);
                wp = writePtr (h c);
                rp = readPtr (h c)
            in if wp \<ge> rp then int wp - int rp else int (capacity w) - int rp + int wp))"

text \<open>What the awaited \<open>session.run\<close> comes back with: the logits of the first output
  with the measured latency, or an exception (from \<open>session.run\<close> or from reading its
  output), caught by the \<open>try\<close> of \<open>runInference\<close>.\<close>

datatype run_outcome = RunOk "real list" real | RunThrows string

text \<open>The part of the worker's \<open>runInference\<close> after \<open>await session.run(feeds)\<close>. The part
  before it prepares the input tensor (resample, normalize, standardize), which nothing
  below depends on. The result is the message the loop posts for it, without the two
  fields (\<open>timestamp\<close>, \<open>isSilence\<close>) the loop adds.\<close>

definition runInference_settled ::
  "worker \<Rightarrow> run_outcome \<Rightarrow> (emotion_vector \<times> emotion_vector \<times> string \<times> real \<times> real) option
     \<times> posted list \<times> worker" where
  "runInference_settled w outcome =
     (case outcome of
        RunThrows message \<Rightarrow> (None, [PostError (''Inference error: '' @ message)], w)
      | RunOk logits latency \<Rightarrow>
          (let probabilities = softmax logits;
               raw = map (\<lambda>(index, label).
                            (label, if index < length probabilities
                                    then probabilities ! index else 0))
                       (enumerate 0 EMOTION_LABELS);
               (smoothed, smoother') = EmaSmoother_update (probabilitySmoother w) raw;
               (best, conf) = getDominant smoothed
           in (Some (smoothed, raw, best, conf, latency), [],
               w\<lparr>probabilitySmoother := smoother'\<rparr>)))"

text \<open>
  \<open>inferenceLoop\<close> is an async function: it runs until it reaches an \<open>await\<close>, and
  between its suspension and its resumption other tasks of the worker run, among them
  \<open>onmessage\<close>. An activation of the loop is a frame: its local \<open>sampleBuffer\<close> and the
  point where it stands.
  \<^item> \<open>LoopTop\<close>: about to test \<open>while (isRunning)\<close>, running;
  \<^item> \<open>AwaitRun\<close>: suspended in \<open>await runInference(windowData)\<close>, at \<open>session.run\<close>;
  \<^item> \<open>AwaitSleep\<close>: suspended in \<open>await sleep(100)\<close>;
  \<^item> \<open>LoopDone\<close>: the loop has ended.
\<close>

datatype loop_pc = LoopTop | AwaitRun | AwaitSleep | LoopDone

record loop_frame =
  sampleBuffer :: "real list"
  pc :: loop_pc

text \<open>One pass through the body of the \<open>while\<close> loop, from its test up to the next
  \<open>await\<close> or \<open>continue\<close>; \<open>now\<close> is what \<open>Date.now()\<close> returns in it. When \<open>session\<close>
  is null \<open>runInference\<close> returns null without suspending on the model.\<close>

definition loop_iteration ::
  "worker \<Rightarrow> real heap \<Rightarrow> real list \<Rightarrow> int
     \<Rightarrow> loop_pc \<times> real list \<times> posted list \<times> worker \<times> real heap" where
  "loop_iteration w h buffer now =
     (if \<not> isRunning w then (LoopDone, buffer, [], w, h)
      else (let available = getAvailableSamples w h;
                (buffer1, h1) =
                  (if available > 0
                   then (case readFromBuffer w h (replicate (nat available) 0) of
                           (n, tempBuffer, h') \<Rightarrow>
                             if n > 0
                             then (let appended = buffer @ take (nat n) tempBuffer
                                   in (if length appended > INFERENCE_WINDOW_SAMPLES * 2
                                       then drop (length appended - INFERENCE_WINDOW_SAMPLES * 2)
                                              appended
                                       else appended, h'))
                             else (buffer, h'))
                   else (buffer, h))
            in if length buffer1 \<ge> INFERENCE_WINDOW_SAMPLES
               then (let windowData = drop (length buffer1 - INFERENCE_WINDOW_SAMPLES) buffer1;
                         rms = calculateRMS windowData
                     in if rms < NOISE_GATE_THRESHOLD
                        then (case buildSilencePayload (probabilitySmoother w)
                                     (lastVoicedTimestamp w) now of
                                (payload, smoother') \<Rightarrow>
                                  (LoopTop,
                                   drop (min HOP_SIZE_SAMPLES (length buffer1)) buffer1,
                                   [PostPrediction payload],
                                   w\<lparr>probabilitySmoother := smoother'\<rparr>, h1))
                        else (let w1 = w\<lparr>lastVoicedTimestamp := now\<rparr>
                              in (case session w1 of
                                    None \<Rightarrow> (AwaitSleep, buffer1, [], w1, h1)
                                  | Some s \<Rightarrow> (AwaitRun, buffer1, [], w1, h1))))
               else (AwaitSleep, buffer1, [], w, h1)))"

text \<open>The loop resumed from \<open>await runInference(windowData)\<close> with the settled model
  call; \<open>now\<close> is the \<open>Date.now()\<close> of the posted message. It goes on to \<open>await sleep(100)\<close>.\<close>

definition loop_resume_run ::
  "worker \<Rightarrow> real list \<Rightarrow> run_outcome \<Rightarrow> int \<Rightarrow> real list \<times> posted list \<times> worker" where
  "loop_resume_run w buffer outcome now =
     (case runInference_settled w outcome of
        (None, msgs, w') \<Rightarrow> (buffer, msgs, w')
      | (Some (smoothed, raw, best, conf, latency), msgs, w') \<Rightarrow>
          (drop (min HOP_SIZE_SAMPLES (length buffer)) buffer,
           msgs @ [PostPrediction
                     \<lparr>emotions = smoothed, rawEmotions = raw, dominant = best,
                      confidence = conf, inferenceTime = latency, timestamp = now,
                      isSilence = False\<rparr>],
           w'))"

text \<open>The worker as a whole: its module variables, the shared memory, the loop
  activations started so far and the messages posted to the main thread, oldest first.
  The producer's writes are not events of this model: the memory changes through the
  worker's reads only.\<close>

record system =
  vars :: worker
  memory :: "real heap"
  frames :: "loop_frame list"
  outbox :: "posted list"

datatype control =
    InitBuffer nat nat
  | Start
  | Stop
  | Reset
  | Unknown string

text \<open>\<open>self.onmessage\<close> for the messages that do not load a model. \<open>start\<close> calls
  \<open>inferenceLoop()\<close>, which adds a frame standing at the top of its loop.\<close>

definition onmessage :: "control \<Rightarrow> system \<Rightarrow> system" where
  "onmessage m sys =
     (case m of
        InitBuffer buffer cap \<Rightarrow>
          (case initializeBuffer (vars sys) (memory sys) buffer cap of
             (thrown, w', msgs) \<Rightarrow> sys\<lparr>vars := w', outbox := outbox sys @ msgs\<rparr>)
      | Start \<Rightarrow>
          (if session (vars sys) \<noteq> None \<and> sharedBuffer (vars sys) \<noteq> None
           then sys\<lparr>vars := (vars sys)\<lparr>isRunning := True,
                        probabilitySmoother := EmaSmoother_reset (probabilitySmoother (vars sys)),
                        lastVoicedTimestamp := 0\<rparr>,
                    outbox := outbox sys @ [PostStarted],
                    frames := frames sys @ [\<lparr>sampleBuffer = [], pc = LoopTop\<rparr>]\<rparr>
           else sys\<lparr>outbox := outbox sys
                       @ [PostError ''Cannot start: model or buffer not initialized'']\<rparr>)
      | Stop \<Rightarrow>
          sys\<lparr>vars := (vars sys)\<lparr>isRunning := False,
                   probabilitySmoother := EmaSmoother_reset (probabilitySmoother (vars sys)),
                   lastVoicedTimestamp := 0\<rparr>,
              outbox := outbox sys @ [PostStopped]\<rparr>
      | Reset \<Rightarrow>
          sys\<lparr>vars := (vars sys)\<lparr>
                   probabilitySmoother := EmaSmoother_reset (probabilitySmoother (vars sys)),
                   lastVoicedTimestamp := 0\<rparr>\<rparr>
      | Unknown ty \<Rightarrow>
          sys\<lparr>outbox := outbox sys @ [PostError (''Unknown message type: '' @ ty)]\<rparr>)"

text \<open>
  The events of the worker's event loop. JavaScript runs every task to its next
  suspension before another task starts, so while a frame stands at \<open>LoopTop\<close> (is
  running) the only thing that happens is the next pass of that frame; messages and
  resumptions of suspended frames are taken when no frame is running. An event that
  cannot happen in a state gives \<open>None\<close>.
  \<^item> \<open>Message m\<close>: a control message is delivered to \<open>onmessage\<close>;
  \<^item> \<open>Iterate i now\<close>: frame \<open>i\<close>, running, makes one pass of its loop;
  \<^item> \<open>RunSettled i outcome now\<close>: the model call frame \<open>i\<close> awaits settles;
  \<^item> \<open>SleepElapsed i\<close>: the timer frame \<open>i\<close> awaits fires.
\<close>

datatype event =
    Message control
  | Iterate nat int
  | RunSettled nat run_outcome int
  | SleepElapsed nat

definition running :: "system \<Rightarrow> bool" where
  "running sys = list_ex (\<lambda>f. pc f = LoopTop) (frames sys)"

fun step :: "event \<Rightarrow> system \<Rightarrow> system option" where
  "step (Message m) sys = (if running sys then None else Some (onmessage m sys))"
| "step (Iterate i now) sys =
     (if i < length (frames sys) \<and> pc (frames sys ! i) = LoopTop
      then (case loop_iteration (vars sys) (memory sys) (sampleBuffer (frames sys ! i)) now of
              (pc', buffer', msgs, w', h') \<Rightarrow>
                Some (sys\<lparr>vars := w', memory := h',
                          frames := (frames sys)[i := \<lparr>sampleBuffer = buffer', pc = pc'\<rparr>],
                          outbox := outbox sys @ msgs\<rparr>))
      else None)"
| "step (RunSettled i outcome now) sys =
     (if \<not> running sys \<and> i < length (frames sys) \<and> pc (frames sys ! i) = AwaitRun
      then (case loop_resume_run (vars sys) (sampleBuffer (frames sys ! i)) outcome now of
              (buffer', msgs, w') \<Rightarrow>
                Some (sys\<lparr>vars := w',
                          frames := (frames sys)[i := \<lparr>sampleBuffer = buffer', pc = AwaitSleep\<rparr>],
                          outbox := outbox sys @ msgs\<rparr>))
      else None)"
| "step (SleepElapsed i) sys =
     (if \<not> running sys \<and> i < length (frames sys) \<and> pc (frames sys ! i) = AwaitSleep
      then Some (sys\<lparr>frames := (frames sys)[i := (frames sys ! i)\<lparr>pc := LoopTop\<rparr>]\<rparr>)
      else None)"

fun run :: "event list \<Rightarrow> system \<Rightarrow> system option" where
  "run [] sys = Some sys"
| "run (e # es) sys = (case step e sys of None \<Rightarrow> None | Some sys' \<Rightarrow> run es sys')"

subsection \<open>Main-thread inference (utils/inference.js) and the emotion store\<close>

text \<open>The module variables of utils/inference.js; the suffix tells them from the
  worker's variables of the same names.\<close>

record inference_main =
  session_main :: "InferenceSession option"
  isInitialized_main :: bool
  lastVoicedTimestamp_main :: int
  probabilitySmoother_main :: EmaSmoother

definition isInferenceReady :: "inference_main \<Rightarrow> bool" where
  "isInferenceReady m = (isInitialized_main m \<and> session_main m \<noteq> None)"

definition getWindowSize :: nat where
  "getWindowSize = INFERENCE_WINDOW_SAMPLES"

definition getHopSize :: nat where
  "getHopSize = HOP_SIZE_SAMPLES"



text \<open>\<dots> and from there on: an exception is logged and \<open>null\<close> is returned.\<close>

definition runInference_main_settled ::
  "inference_main \<Rightarrow> run_outcome \<Rightarrow> int \<Rightarrow> prediction option \<times> inference_main" where
  "runInference_main_settled m outcome now =
     (case outcome of
        RunThrows message \<Rightarrow> (None, m)
      | RunOk logits latency \<Rightarrow>
          (let probabilities = softmax logits;
               raw = map (\<lambda>(index, label).
                            (label, if index < length probabilities
                                    then probabilities ! index else 0))
                       (enumerate 0 EMOTION_LABELS);
               (smoothed, smoother') = EmaSmoother_update (probabilitySmoother_main m) raw;
               (best, conf) = getDominant smoothed
           in (Some \<lparr>emotions = smoothed, rawEmotions = raw, dominant = best,
                     confidence = conf, inferenceTime = latency, timestamp = now,
                     isSilence = False\<rparr>,
               m\<lparr>probabilitySmoother_main := smoother'\<rparr>)))"

text \<open>The fields of the emotion store that \<open>processAudio\<close> and \<open>handlePrediction\<close> touch;
  those that share a name with a field of a prediction carry a suffix. An entry of the
  history is \<open>{timestamp, emotions, dominant, confidence, isSilence}\<close>.\<close>

datatype history_entry = HistoryEntry int emotion_vector string real bool

record emotion_store =
  isInferenceRunning :: bool
  audioBuffer :: "real list"
  emotions_st :: emotion_vector
  rawEmotions_st :: emotion_vector
  dominantEmotion :: string
  confidence_st :: real
  inferenceTime_st :: real
  lastPredictionTime :: "int option"
  emotionHistory :: "history_entry list"
  maxHistoryLength :: nat
  sessionEmotionSummary :: emotion_vector
  predictionCount :: nat

text \<open>\<open>object[key] = v\<close> on the entries of an object: an existing key keeps its place.
  \<open>handlePrediction\<close> reads \<open>summary[label]\<close> and \<open>emotions[label]\<close> with no default: every
  object it is given has all the labels.\<close>

fun assign :: "string \<Rightarrow> real \<Rightarrow> emotion_vector \<Rightarrow> emotion_vector" where
  "assign k v [] = [(k, v)]"
| "assign k v ((k', v') # rest) = (if k = k' then (k, v) # rest else (k', v') # assign k v rest)"

definition handlePrediction :: "emotion_store \<Rightarrow> prediction \<Rightarrow> emotion_store" where
  "handlePrediction st d =
     (let historyEntry = HistoryEntry (timestamp d) (emotions d) (dominant d) (confidence d)
                           (isSilence d);
          extended = emotionHistory st @ [historyEntry];
          newHistory = (if maxHistoryLength st = 0 then extended
                        else drop (length extended - maxHistoryLength st) extended);
          newCount = predictionCount st + 1;
          newSummary = fold (\<lambda>label acc.
                         assign label
                           ((the (map_of (sessionEmotionSummary st) label)
                               * real (predictionCount st)
                             + the (map_of (emotions d) label)) / real newCount) acc)
                         EMOTION_LABELS (sessionEmotionSummary st)
      in st\<lparr>emotions_st := emotions d, rawEmotions_st := rawEmotions d,
            dominantEmotion := dominant d, confidence_st := confidence d,
            inferenceTime_st := inferenceTime d, lastPredictionTime := Some (timestamp d),
            emotionHistory := newHistory, sessionEmotionSummary := newSummary,
            predictionCount := newCount\<rparr>)"

text \<open>\<open>processAudio\<close> up to \<open>await runInference(audioWindow, \<dots>)\<close>: \<open>None\<close> when it returns
  early, else the \<open>state\<close> snapshot's audio buffer and the window handed to
  \<open>runInference\<close>.\<close>

definition processAudio_start ::
  "emotion_store \<Rightarrow> inference_main \<Rightarrow> (real list \<times> real list) option" where
  "processAudio_start st m =
     (if \<not> isInferenceRunning st \<or> \<not> isInferenceReady m then None
      else if length (audioBuffer st) < getWindowSize then None
      else Some (audioBuffer st,
                 drop (length (audioBuffer st) - getWindowSize) (audioBuffer st)))"

text \<open>\<dots> and after it: \<open>st\<close> is the store when \<open>runInference\<close> has returned \<open>result\<close>,
  \<open>snapshot\<close> the audio buffer of the \<open>state\<close> read at the start.\<close>

definition processAudio_resume ::
  "emotion_store \<Rightarrow> real list \<Rightarrow> prediction option \<Rightarrow> emotion_store" where
  "processAudio_resume st snapshot result =
     (case result of
        None \<Rightarrow> st
      | Some r \<Rightarrow>
          (handlePrediction st r)
            \<lparr>audioBuffer := drop (min getHopSize (length snapshot)) snapshot\<rparr>)"


subsection \<open>A start state for traces\<close>

text \<open>A worker whose model is loaded and whose views are on buffer 0, created with the
  capacity of \<open>AUDIO_CONSTANTS.RING_BUFFER_CAPACITY\<close> = 80000, into which the producer has
  written one inference window of samples of value 1.\<close>

definition voiced_memory :: "real heap" where
  "voiced_memory =
     (\<lambda>b. \<lparr>writePtr = 2376, readPtr = 0, capacitySlot = 80000,
            sampleData = replicate 2376 1 @ replicate 77624 0\<rparr>)"

definition ready_system :: system where
  "ready_system =
     \<lparr>vars = fst (snd (initializeBuffer
               (worker_new\<lparr>session := Some (InferenceSession [''input''] [''logits''])\<rparr>)
               voiced_memory 0 80000)),
      memory = voiced_memory, frames = [], outbox = []\<rparr>"

text \<open>The worker of that state after \<open>start\<close> and one pass of the loop: the window has
  been drained from the ring buffer and the model call on it is in flight.\<close>

definition inflight_system :: system where
  "inflight_system =
     \<lparr>vars = (vars ready_system)\<lparr>isRunning := True, lastVoicedTimestamp := 1000\<rparr>,
      memory = voiced_memory(0 := (voiced_memory 0)\<lparr>readPtr := 2376\<rparr>),
      frames = [\<lparr>sampleBuffer = replicate 2376 1, pc = AwaitRun\<rparr>],
      outbox = [PostStarted]\<rparr>"

text \<open>Two traces from \<open>ready_system\<close>. In both the worker is started and drains the
  window in its first pass. In the first, \<open>stop\<close> is delivered while the model call is in
  flight, and the call then settles with eight equal logits; in the second the model call
  throws.\<close>

definition stop_mid_hop :: "event list" where
  "stop_mid_hop =
     [Message Start, Iterate 0 1000, Message Stop,
      RunSettled 0 (RunOk [0, 0, 0, 0, 0, 0, 0, 0] 5) 1200]"

definition failing_hop :: "event list" where
  "failing_hop =
     [Message Start, Iterate 0 1000, RunSettled 0 (RunThrows ''model failed'') 1200]"




text \<open>A test signal: the samples a, a + 1, \<dots>, b - 1.\<close>

definition ramp :: "nat \<Rightarrow> nat \<Rightarrow> real list" where
  "ramp a b = map real [a..<b]"

section \<open>Properties of the ring buffer\<close>


lemma mod_add_neq:
  fixes c :: nat
  assumes "j < n" "n < c"
  shows "(r + j) mod c \<noteq> (r + n) mod c"
proof
  assume "(r + j) mod c = (r + n) mod c"
  then have "c dvd (r + n) - (r + j)"
    using assms by (metis mod_eq_dvd_iff_nat add_le_cancel_left less_imp_le)
  then have "c dvd n - j" by simp
  then show False using assms by (auto dest: dvd_imp_le)
qed

lemma ring_list_Suc:
  "ring_list c buf r (Suc n) = ring_list c buf r n @ [buf ! ((r + n) mod c)]"
  by (simp add: ring_list_def)

lemma ring_list_update:
  assumes "n < c"
  shows "ring_list c (buf[(r + n) mod c := s]) r n = ring_list c buf r n"
proof -
  have "\<And>x. x < n \<Longrightarrow> (r + n) mod c \<noteq> (r + x) mod c"
    using mod_add_neq[OF _ assms, of _ r] by metis
  then show ?thesis by (simp add: ring_list_def)
qed

lemma write_loop_ring:
  assumes "0 < c" "length buf = c" "n + length ss < c" "wi = (r + n) mod c"
  shows "write_loop c buf wi ss =
           (fst (write_loop c buf wi ss), (r + n + length ss) mod c)
         \<and> length (fst (write_loop c buf wi ss)) = c
         \<and> ring_list c (fst (write_loop c buf wi ss)) r (n + length ss) = ring_list c buf r n @ ss"
  using assms
proof (induction ss arbitrary: buf n wi)
  case Nil
  then show ?case by simp
next
  case (Cons s ss)
  let ?buf = "buf[wi := s]"
  have wi': "(wi + 1) mod c = (r + Suc n) mod c"
    using Cons.prems by (simp add: mod_Suc_eq)
  have IH: "write_loop c ?buf ((wi + 1) mod c) ss =
           (fst (write_loop c ?buf ((wi + 1) mod c) ss), (r + Suc n + length ss) mod c)
         \<and> length (fst (write_loop c ?buf ((wi + 1) mod c) ss)) = c
         \<and> ring_list c (fst (write_loop c ?buf ((wi + 1) mod c) ss)) r (Suc n + length ss)
             = ring_list c ?buf r (Suc n) @ ss"
    using Cons.IH[of ?buf "Suc n" "(wi + 1) mod c"] Cons.prems wi' by simp
  have "ring_list c ?buf r (Suc n) = ring_list c buf r n @ [s]"
    using Cons.prems by (simp add: ring_list_Suc ring_list_update)
  with IH show ?case by simp
qed

lemma read_loop_ring:
  assumes "ri < c" "i + n \<le> length dest"
  shows "read_loop c buf ri dest i n =
           (take i dest @ ring_list c buf ri n @ drop (i + n) dest, (ri + n) mod c)"
  using assms
proof (induction n arbitrary: ri dest i)
  case 0
  then show ?case by (simp add: ring_list_def)
next
  case (Suc n)
  let ?d = "dest[i := buf ! ri]"
  have c: "0 < c" using Suc.prems by simp
  have IH: "read_loop c buf ((ri + 1) mod c) ?d (i + 1) n =
           (take (i + 1) ?d @ ring_list c buf ((ri + 1) mod c) n @ drop (i + 1 + n) ?d,
            ((ri + 1) mod c + n) mod c)"
    using Suc.IH[of "(ri + 1) mod c" "i + 1" ?d] Suc.prems c by simp
  have t: "take (i + 1) ?d = take i dest @ [buf ! ri]"
    using Suc.prems by (simp add: take_Suc_conv_app_nth)
  have r: "ring_list c buf ri (Suc n) = buf ! ri # ring_list c buf ((ri + 1) mod c) n"
  proof -
    have "[0..<Suc n] = 0 # map Suc [0..<n]"
      by (simp add: map_Suc_upt upt_conv_Cons del: upt_Suc)
    moreover have "\<And>x. (Suc ri mod c + x) mod c = Suc (ri + x) mod c"
      by (simp add: mod_add_left_eq)
    ultimately show ?thesis
      using Suc.prems by (simp add: ring_list_def o_def del: upt_Suc)
  qed
  show ?case using IH t r by (simp add: mod_add_left_eq)
qed


lemma avail_of_ptr:
  fixes c :: nat
  assumes "rp < c" "x < c" "wp = (rp + x) mod c"
  shows "(if wp \<ge> rp then int wp - int rp else int c - int rp + int wp) = int x"
proof (cases "rp + x < c")
  case True
  then show ?thesis using assms by simp
next
  case False
  then have "(rp + x) mod c = rp + x - c"
    using assms by (simp add: mod_if)
  then show ?thesis using assms False by auto
qed

lemma ptr_of_avail:
  assumes "rb_valid c m"
  shows "0 \<le> availableRead c m" "availableRead c m < int c"
    "writePtr m = (readPtr m + nat (availableRead c m)) mod c"
    "availableWrite c m = int c - 1 - availableRead c m"
  using assms
  by (auto simp: rb_valid_def availableRead_def availableWrite_def availableWrite_at_def
      nat_diff_distrib nat_add_distrib)

lemma contents_length: "length (contents c m) = nat (availableRead c m)"
  by (simp add: contents_def ring_list_def)

lemma ring_list_take: "k \<le> a \<Longrightarrow> take k (ring_list c buf r a) = ring_list c buf r k"
  by (simp add: ring_list_def take_map)

lemma ring_list_drop:
  "drop k (ring_list c buf r a) = ring_list c buf ((r + k) mod c) (a - k)"
  by (auto simp: ring_list_def list_eq_iff_nth_eq mod_add_left_eq add.assoc)

lemma write_ok:
  assumes v: "rb_valid c m" and w: "RingBufferWriter_write c m samples = (n, m')"
  shows "n = min (int (length samples)) (availableWrite c m)"
    "rb_valid c m'" "readPtr m' = readPtr m"
    "availableRead c m' = availableRead c m + n"
    "contents c m' = contents c m @ take (nat n) samples"
proof -
  define a where "a = nat (availableRead c m)"
  define t where "t = min (int (length samples)) (availableWrite c m)"
  define ss where "ss = take (nat t) samples"
  note p = ptr_of_avail[OF v]
  have a: "int a = availableRead c m" using p by (simp add: a_def)
  have t0: "0 \<le> t" using p by (simp add: t_def)
  have lss: "length ss = nat t" using t0 by (auto simp: ss_def t_def)
  have bound: "a + length ss < c" using p a t0 lss by (simp add: t_def)
  have c0: "0 < c" and lb: "length (sampleData m) = c" and rp: "readPtr m < c"
    using v by (simp_all add: rb_valid_def)
  have wp: "writePtr m = (readPtr m + a) mod c" using p by (simp add: a_def)
  note wl = write_loop_ring[OF c0 lb bound wp]
  show n: "n = min (int (length samples)) (availableWrite c m)"
    using w by (auto simp: RingBufferWriter_write_def Let_def availableWrite_def
        split: if_splits prod.splits)
  have m': "m' = (if t = 0 then m
      else m\<lparr>sampleData := fst (write_loop c (sampleData m) (writePtr m) ss),
              writePtr := (readPtr m + a + length ss) mod c\<rparr>)"
    using w wl by (auto simp: RingBufferWriter_write_def Let_def availableWrite_def t_def ss_def
        split: if_splits prod.splits)
  have ss0: "t = 0 \<Longrightarrow> ss = []" by (simp add: ss_def)
  have m'': "m' = m\<lparr>sampleData := fst (write_loop c (sampleData m) (writePtr m) ss),
              writePtr := (readPtr m + a + length ss) mod c\<rparr>"
    using m' ss0 wp by (cases "t = 0") simp_all
  show "rb_valid c m'" using v wl by (simp add: m'' rb_valid_def)
  show "readPtr m' = readPtr m" by (simp add: m'')
  have wp': "writePtr m' = (readPtr m + (a + length ss)) mod c"
    by (simp add: m'' add.assoc)
  have rp': "readPtr m' = readPtr m" by (simp add: m'')
  have ar: "availableRead c m' = int (a + length ss)"
    unfolding availableRead_def rp' using avail_of_ptr[OF rp bound wp'] .
  then show "availableRead c m' = availableRead c m + n"
    using a lss t0 n by (simp add: t_def)
  have "contents c m' = ring_list c (sampleData m') (readPtr m') (a + length ss)"
    unfolding contents_def ar by (simp add: nat_add_distrib)
  also have "\<dots> = ring_list c (sampleData m) (readPtr m) a @ ss"
    using wl by (simp add: m'')
  finally show "contents c m' = contents c m @ take (nat n) samples"
    unfolding n by (simp add: contents_def a_def ss_def t_def)
qed

lemma read_ok:
  assumes v: "rb_valid c m" and r: "RingBufferReader_read c m dest = (k, dest', m')"
  shows "k = min (int (length dest)) (availableRead c m)"
    "rb_valid c m'" "writePtr m' = writePtr m"
    "availableRead c m' = availableRead c m - k"
    "dest' = take (nat k) (contents c m) @ drop (nat k) dest"
    "contents c m' = drop (nat k) (contents c m)"
proof -
  define a where "a = nat (availableRead c m)"
  define t where "t = min (int (length dest)) (availableRead c m)"
  note p = ptr_of_avail[OF v]
  have a: "int a = availableRead c m" using p by (simp add: a_def)
  have t0: "0 \<le> t" using p by (simp add: t_def)
  have ta: "nat t \<le> a" "nat t \<le> length dest" using t0 a by (simp_all add: t_def)
  have c0: "0 < c" and rp: "readPtr m < c"
    using v by (simp_all add: rb_valid_def)
  note rl = read_loop_ring[OF rp, of 0 "nat t" dest "sampleData m", simplified, OF ta(2)]
  show k: "k = min (int (length dest)) (availableRead c m)"
    using r by (auto simp: RingBufferReader_read_def Let_def availableRead_def
        split: if_splits prod.splits)
  have km: "dest' = ring_list c (sampleData m) (readPtr m) (nat t) @ drop (nat t) dest
      \<and> m' = m\<lparr>readPtr := (readPtr m + nat t) mod c\<rparr>"
    using r rl rp by (auto simp: RingBufferReader_read_def Let_def availableRead_def t_def
        ring_list_def split: if_splits prod.splits)
  show "rb_valid c m'" using v by (simp add: km rb_valid_def)
  show "writePtr m' = writePtr m" by (simp add: km)
  have "((readPtr m + nat t) mod c + (a - nat t)) mod c = (readPtr m + nat t + (a - nat t)) mod c"
    by (simp add: mod_add_left_eq)
  also have "readPtr m + nat t + (a - nat t) = readPtr m + a" using ta by simp
  finally have wp: "writePtr m' = (readPtr m' + (a - nat t)) mod c"
    using p(3) by (simp add: km a_def[symmetric])
  have ar: "availableRead c m' = int (a - nat t)"
    unfolding availableRead_def
    using avail_of_ptr[OF _ _ wp] c0 p a by (simp add: km)
  then show "availableRead c m' = availableRead c m - k"
    using a ta t0 k by (simp add: t_def)
  show "dest' = take (nat k) (contents c m) @ drop (nat k) dest"
    using km k ta by (simp add: contents_def t_def[symmetric] a_def[symmetric] ring_list_take)
  show "contents c m' = drop (nat k) (contents c m)"
    using ar k by (simp add: contents_def ring_list_drop t_def[symmetric] a_def[symmetric] km)
qed


lemma createRingBuffer_valid: "0 < c \<Longrightarrow> rb_valid c (createRingBuffer c)"
  by (simp add: rb_valid_def createRingBuffer_def)

lemma apply_op_valid: "rb_valid c m \<Longrightarrow> rb_valid c (apply_op c m x)"
proof (cases x)
  case (Write samples)
  assume "rb_valid c m"
  then show ?thesis
    using write_ok(2)[of c m samples] Write by (cases "RingBufferWriter_write c m samples") simp
next
  case (Read d)
  assume "rb_valid c m"
  then show ?thesis
    using read_ok(2)[of c m d] Read by (cases "RingBufferReader_read c m d") simp
next
  case WriterReset
  assume "rb_valid c m"
  then show ?thesis using WriterReset by (simp add: rb_valid_def RingBufferWriter_reset_def)
next
  case ReaderReset
  assume "rb_valid c m"
  then show ?thesis using ReaderReset by (simp add: rb_valid_def RingBufferReader_reset_def)
qed

lemma run_ops_valid: "rb_valid c m \<Longrightarrow> rb_valid c (run_ops c m ops)"
  unfolding run_ops_def
  by (induction ops arbitrary: m) (simp_all add: apply_op_valid)

lemma push_all_count:
  assumes "rb_valid c m" "push_all c m chunks = (dropped, m')"
  shows "rb_valid c m'
    \<and> availableRead c m' = min (int c - 1) (availableRead c m + int (length (concat chunks)))
    \<and> dropped = int (length (concat chunks)) - (availableRead c m' - availableRead c m)"
  using assms
proof (induction chunks arbitrary: m dropped m')
  case Nil
  then show ?case using ptr_of_avail(2)[of c m] by simp
next
  case (Cons x xs)
  obtain n m1 where w: "RingBufferWriter_write c m x = (n, m1)"
    by (cases "RingBufferWriter_write c m x")
  obtain d m2 where p: "push_all c m1 xs = (d, m2)"
    by (cases "push_all c m1 xs")
  note wo = write_ok[OF Cons.prems(1) w]
  note IH = Cons.IH[OF wo(2) p]
  have res: "m' = m2" "dropped = int (length x) - n + d"
    using Cons.prems(2) w p by simp_all
  have aw: "availableWrite c m = int c - 1 - availableRead c m"
    using ptr_of_avail(4)[OF Cons.prems(1)] .
  have a0: "0 \<le> availableRead c m" using ptr_of_avail(1)[OF Cons.prems(1)] .
  show ?case using IH wo(1,4) aw a0 unfolding res by (auto simp: min_def)
qed

text \<open>
  Claim C1, as the code has it. On a valid buffer a write of k samples that fit
  (k at most \<open>availableWrite()\<close>) is taken whole and raises \<open>availableRead()\<close> by exactly k.
  A read of k samples that follows returns the k oldest unread samples, in the order they
  were written: the first k of the samples that were unread before the write followed by
  the written ones, which are the written samples themselves when the buffer was empty
  before the write. It brings \<open>availableRead()\<close> back to its value before the write.
\<close>

theorem fifo_accounting:
  assumes "rb_valid C m"
    and "int (length samples) \<le> availableWrite C m"
    and "RingBufferWriter_write C m samples = (n, m')"
    and "length destination = length samples"
    and "RingBufferReader_read C m' destination = (k, dest, m'')"
  shows "n = int (length samples)
    \<and> availableRead C m' = availableRead C m + int (length samples)
    \<and> k = int (length samples)
    \<and> dest = take (length samples) (contents C m @ samples)
    \<and> (availableRead C m = 0 \<longrightarrow> dest = samples)
    \<and> availableRead C m'' = availableRead C m"
proof -
  note wo = write_ok[OF assms(1,3)]
  note ro = read_ok[OF wo(2) assms(5)]
  note p = ptr_of_avail[OF assms(1)]
  have n: "n = int (length samples)" using wo(1) assms(2) by simp
  have k: "k = int (length samples)" using ro(1) wo(4) assms(4) p(1) n by simp
  have d: "dest = take (length samples) (contents C m @ samples)"
    using ro(5) wo(5) k n assms(4) by simp
  have e: "availableRead C m = 0 \<Longrightarrow> contents C m = []"
    using contents_length[of C m] by simp
  show ?thesis using n k d e wo(4) ro(4) by simp
qed

theorem fifo_accounting_witness:
  "rb_valid 4 \<lparr>writePtr = 1, readPtr = 0, capacitySlot = 4, sampleData = [7, 0, 0, 0::int]\<rparr>
   \<and> int (length [9::int]) \<le> availableWrite 4
        \<lparr>writePtr = 1, readPtr = 0, capacitySlot = 4, sampleData = [7, 0, 0, 0::int]\<rparr>
   \<and> RingBufferWriter_write 4
        \<lparr>writePtr = 1, readPtr = 0, capacitySlot = 4, sampleData = [7, 0, 0, 0::int]\<rparr> [9]
       = (1, \<lparr>writePtr = 2, readPtr = 0, capacitySlot = 4, sampleData = [7, 9, 0, 0]\<rparr>)
   \<and> RingBufferReader_read 4
        \<lparr>writePtr = 2, readPtr = 0, capacitySlot = 4, sampleData = [7, 9, 0, 0::int]\<rparr> [0]
       = (1, [7], \<lparr>writePtr = 2, readPtr = 1, capacitySlot = 4, sampleData = [7, 9, 0, 0]\<rparr>)
   \<and> availableRead 4
        \<lparr>writePtr = 2, readPtr = 0, capacitySlot = 4, sampleData = [7, 9, 0, 0::int]\<rparr>
       = availableRead 4
           \<lparr>writePtr = 1, readPtr = 0, capacitySlot = 4, sampleData = [7, 0, 0, 0::int]\<rparr> + 1
   \<and> [7] = take (length [9::int])
               (contents 4
                  \<lparr>writePtr = 1, readPtr = 0, capacitySlot = 4, sampleData = [7, 0, 0, 0::int]\<rparr>
                @ [9])"
  using fifo_accounting[of 4
      "\<lparr>writePtr = 1, readPtr = 0, capacitySlot = 4, sampleData = [7, 0, 0, 0::int]\<rparr>" "[9]"
      1 "\<lparr>writePtr = 2, readPtr = 0, capacitySlot = 4, sampleData = [7, 9, 0, 0::int]\<rparr>" "[0]"
      1 "[7]" "\<lparr>writePtr = 2, readPtr = 1, capacitySlot = 4, sampleData = [7, 9, 0, 0::int]\<rparr>"]
  by (simp add: rb_valid_def availableWrite_def availableWrite_at_def availableRead_def
      RingBufferWriter_write_def RingBufferReader_read_def contents_def ring_list_def)

text \<open>With one sample (7) unread, a write of [9] followed by a read of one sample
  returns the older sample 7, not the sample just written.\<close>

theorem read_returns_oldest_not_written:
  "rb_valid 4 \<lparr>writePtr = 1, readPtr = 0, capacitySlot = 4, sampleData = [7, 0, 0, 0::int]\<rparr>
   \<and> int (length [9::int]) \<le> availableWrite 4
        \<lparr>writePtr = 1, readPtr = 0, capacitySlot = 4, sampleData = [7, 0, 0, 0::int]\<rparr>
   \<and> fst (snd (RingBufferReader_read 4 (snd (RingBufferWriter_write 4
       \<lparr>writePtr = 1, readPtr = 0, capacitySlot = 4, sampleData = [7, 0, 0, 0::int]\<rparr> [9])) [0]))
     \<noteq> [9]"
  by (simp add: rb_valid_def availableWrite_def availableWrite_at_def availableRead_def
      RingBufferWriter_write_def RingBufferReader_read_def)

text \<open>
  Claim C2. Whatever writes, reads and resets were applied to a buffer created with
  capacity C, \<open>availableWrite()\<close> is at most C - 1. When chunks are pushed into a new
  buffer with no read in between and together hold at least C - 1 samples, the buffer ends
  full with \<open>availableRead()\<close> at C - 1, and the samples dropped number the samples pushed
  minus (C - 1).
\<close>

theorem one_slot_reserved:
  assumes "0 < C"
  shows "availableWrite C
           (run_ops C (createRingBuffer C :: ('a::zero) shared_buffer) ops)
           \<le> int C - 1
    \<and> (int C - 1 \<le> int (length (concat chunks)) \<longrightarrow>
         (case push_all C (createRingBuffer C :: 'a shared_buffer) chunks of
            (dropped, m') \<Rightarrow>
              availableRead C m' = int C - 1
              \<and> availableWrite C m' = 0
              \<and> dropped = int (length (concat chunks)) - (int C - 1)))"
proof -
  let ?m = "createRingBuffer C :: 'a shared_buffer"
  have v: "rb_valid C ?m" using assms by (rule createRingBuffer_valid)
  have a0: "availableRead C ?m = 0"
    by (simp add: availableRead_def createRingBuffer_def)
  have v': "rb_valid C (run_ops C ?m ops)" using v by (rule run_ops_valid)
  have one: "availableWrite C (run_ops C ?m ops) \<le> int C - 1"
    using ptr_of_avail(1,4)[OF v'] by simp
  obtain d m' where p: "push_all C ?m chunks = (d, m')"
    by (cases "push_all C ?m chunks")
  note pc = push_all_count[OF v p]
  have "int C - 1 \<le> int (length (concat chunks)) \<Longrightarrow>
      availableRead C m' = int C - 1
      \<and> availableWrite C m' = 0
      \<and> d = int (length (concat chunks)) - (int C - 1)"
    using pc a0 ptr_of_avail(4)[of C m'] by simp
  then show ?thesis using one p by simp
qed

theorem one_slot_reserved_witness:
  "(0::nat) < 3
   \<and> int 3 - 1 \<le> int (length (concat [[5, 6], [7, 8::int]]))
   \<and> availableWrite 3 (run_ops 3 (createRingBuffer 3 :: int shared_buffer)
         [Write [5, 6], Read [0], WriterReset, Write [7]]) \<le> 2
   \<and> availableRead 3 (snd (push_all 3 (createRingBuffer 3 :: int shared_buffer)
         [[5, 6], [7, 8]])) = 2
   \<and> fst (push_all 3 (createRingBuffer 3 :: int shared_buffer) [[5, 6], [7, 8]]) = 2"
  using one_slot_reserved[of 3 "[Write [5, 6], Read [0], WriterReset, Write [7]]"
      "[[5, 6], [7, 8::int]]"]
  by (simp split: prod.splits)

text \<open>
  Claim C9, as the code has it. The producer-side \<open>reset()\<close> stores zero into both
  cursors. The consumer-side \<open>reset()\<close> leaves the write cursor alone and moves the read
  cursor onto it, wherever that is. After either of them nothing is left to read and
  \<open>capacity - 1\<close> slots are free to write.
\<close>

theorem reset_postcondition:
  "writePtr (RingBufferWriter_reset m) = 0 \<and> readPtr (RingBufferWriter_reset m) = 0
   \<and> writePtr (RingBufferReader_reset m) = writePtr m
   \<and> readPtr (RingBufferReader_reset m) = writePtr m
   \<and> availableRead C (RingBufferWriter_reset m) = 0
   \<and> availableWrite C (RingBufferWriter_reset m) = int C - 1
   \<and> availableRead C (RingBufferReader_reset m) = 0
   \<and> availableWrite C (RingBufferReader_reset m) = int C - 1"
  by (simp add: RingBufferWriter_reset_def RingBufferReader_reset_def availableRead_def
      availableWrite_def availableWrite_at_def)

text \<open>The consumer-side reset on a buffer whose write cursor is at 2: the read cursor
  is 2 afterwards, not zero.\<close>

theorem reader_reset_not_zero:
  "readPtr (RingBufferReader_reset
      \<lparr>writePtr = 2, readPtr = 1, capacitySlot = 4, sampleData = [0, 7, 0, 0::int]\<rparr>) \<noteq> 0"
  by (simp add: RingBufferReader_reset_def)

section \<open>Properties of the smoother and the silence gate\<close>


lemma distinct_labels: "distinct EMOTION_LABELS"
  by (simp add: EMOTION_LABELS_def)

lemma map_of_tabulate:
  "label \<in> set ls \<Longrightarrow> map_of (map (\<lambda>l. (l, f l)) ls) label = Some (f label)"
  by (induction ls) auto

lemma update_with_state:
  assumes "state s = Some prev_state"
  shows "fst (EmaSmoother_update s raw) =
           map (\<lambda>label. (label, alpha s * or_zero (map_of raw label)
                                + (1 - alpha s) * or_zero (map_of prev_state label))) EMOTION_LABELS"
    and "snd (EmaSmoother_update s raw) = s\<lparr>state := Some (fst (EmaSmoother_update s raw))\<rparr>"
  using assms by (simp_all add: EmaSmoother_update_def Let_def)

lemma update_without_state:
  assumes "state s = None"
  shows "EmaSmoother_update s v = (v, s\<lparr>state := Some v\<rparr>)"
  using assms by (simp add: EmaSmoother_update_def)



text \<open>
  Claim C6. With a prior state, \<open>update(raw)\<close> returns for every label
  \<open>alpha * raw[label] + (1 - alpha) * prev[label]\<close> (a label missing from an operand counts
  as 0 there) and keeps the result as the new state; the smoother of the pipeline is built
  with alpha = 0.2 and no state. With no prior state, on the first update or on the first
  one after \<open>reset\<close>, \<open>update(v)\<close> returns v unchanged.
\<close>

theorem ema_update_correct:
  "(state s = Some prev_state \<longrightarrow>
      (\<forall>label \<in> set EMOTION_LABELS.
          map_of (fst (EmaSmoother_update s raw)) label =
            Some (alpha s * or_zero (map_of raw label)
                  + (1 - alpha s) * or_zero (map_of prev_state label)))
      \<and> map fst (fst (EmaSmoother_update s raw)) = EMOTION_LABELS
      \<and> state (snd (EmaSmoother_update s raw)) = Some (fst (EmaSmoother_update s raw)))
   \<and> (state s0 = None \<longrightarrow>
        fst (EmaSmoother_update s0 v) = v \<and> state (snd (EmaSmoother_update s0 v)) = Some v)
   \<and> fst (EmaSmoother_update (EmaSmoother_reset s) v) = v
   \<and> state probabilitySmoother_init = None
   \<and> alpha probabilitySmoother_init = 0.2"
proof -
  have a: "state s = Some prev_state \<Longrightarrow>
      (\<forall>label \<in> set EMOTION_LABELS.
          map_of (fst (EmaSmoother_update s raw)) label =
            Some (alpha s * or_zero (map_of raw label)
                  + (1 - alpha s) * or_zero (map_of prev_state label)))"
    by (simp add: update_with_state(1) map_of_tabulate)
  have b: "state s = Some prev_state \<Longrightarrow>
      map fst (fst (EmaSmoother_update s raw)) = EMOTION_LABELS"
    by (simp add: update_with_state(1) o_def)
  have c: "state s = Some prev_state \<Longrightarrow>
      state (snd (EmaSmoother_update s raw)) = Some (fst (EmaSmoother_update s raw))"
    by (simp add: update_with_state(2))
  have d: "state s0 = None \<Longrightarrow>
        fst (EmaSmoother_update s0 v) = v \<and> state (snd (EmaSmoother_update s0 v)) = Some v"
    by (simp add: update_without_state)
  have e: "fst (EmaSmoother_update (EmaSmoother_reset s) v) = v"
    by (simp add: update_without_state EmaSmoother_reset_def)
  have f: "state probabilitySmoother_init = None \<and> alpha probabilitySmoother_init = 0.2"
    by (simp add: probabilitySmoother_init_def EmaSmoother_new_def EMA_ALPHA_def)
  show ?thesis using a b c d e f by blast
qed

theorem ema_update_correct_witness:
  "state \<lparr>alpha = 1/5, state = Some (map (\<lambda>l. (l, 1/8)) EMOTION_LABELS)\<rparr>
     = Some (map (\<lambda>l. (l, 1/8)) EMOTION_LABELS)
   \<and> ''neutral'' \<in> set EMOTION_LABELS
   \<and> state probabilitySmoother_init = None
   \<and> map_of (fst (EmaSmoother_update
        \<lparr>alpha = 1/5, state = Some (map (\<lambda>l. (l, 1/8)) EMOTION_LABELS)\<rparr> NEUTRAL_VECTOR))
        ''neutral'' = Some (3/10)
   \<and> fst (EmaSmoother_update probabilitySmoother_init NEUTRAL_VECTOR) = NEUTRAL_VECTOR"
  using ema_update_correct[of
      "\<lparr>alpha = 1/5, state = Some (map (\<lambda>l. (l, 1/8)) EMOTION_LABELS)\<rparr>"
      "map (\<lambda>l. (l, 1/8)) EMOTION_LABELS" NEUTRAL_VECTOR probabilitySmoother_init NEUTRAL_VECTOR]
  by (simp add: EMOTION_LABELS_def NEUTRAL_VECTOR_def or_zero_def)

section \<open>Properties of the capture processor and the worker\<close>

text \<open>The processor's \<open>writeToBuffer\<close> and the worker's \<open>readFromBuffer\<close> and
  \<open>getAvailableSamples\<close> repeat the code of \<open>RingBufferWriter.write\<close>,
  \<open>RingBufferReader.read\<close> and \<open>availableRead\<close>: once the views are attached to a buffer
  they do to it what those do, so the properties of the ring buffer hold for the pipeline.\<close>

lemma writeToBuffer_is_write:
  assumes "isInitialized p" "controlBuffer p = Some b" "dataBuffer p = Some b"
  shows "writeToBuffer p h samples =
    (case RingBufferWriter_write (capacity p) (h b) samples of
       (n, m') \<Rightarrow> (n, if n = 0 then h else h(b := m')))"
  using assms
  by (simp add: writeToBuffer_def RingBufferWriter_write_def availableWrite_at_def Let_def
      split: prod.splits)

lemma readFromBuffer_is_read:
  assumes "controlBuffer w = Some b" "dataBuffer w = Some b"
  shows "readFromBuffer w h destination =
    (case RingBufferReader_read (capacity w) (h b) destination of
       (n, dest, m') \<Rightarrow> (n, dest, if n = 0 then h else h(b := m')))"
  using assms
  by (simp add: readFromBuffer_def RingBufferReader_read_def Let_def split: prod.splits)

lemma getAvailableSamples_is_availableRead:
  assumes "controlBuffer w = Some b"
  shows "getAvailableSamples w h = availableRead (capacity w) (h b)"
  using assms by (simp add: getAvailableSamples_def availableRead_def Let_def)



lemma HOP_SIZE_SAMPLES_value: "HOP_SIZE_SAMPLES = 2375"
  by (simp add: HOP_SIZE_SAMPLES_def INFERENCE_WINDOW_SAMPLES_def TARGET_SAMPLE_RATE_def
      HOP_DURATION_SECONDS_def)

lemma foldl_squares_replicate:
  "foldl (\<lambda>acc v. acc + v * v) a (replicate n c) = a + real n * (c * c)"
  by (induction n arbitrary: a) (simp_all add: algebra_simps)

lemma calculateRMS_replicate: "0 < n \<Longrightarrow> calculateRMS (replicate n c) = \<bar>c\<bar>"
  by (simp add: calculateRMS_def calculateRMSInRange_def Let_def foldl_squares_replicate
      real_sqrt_mult)

lemma ring_list_replicate:
  "n \<le> a \<Longrightarrow> a + length ys \<le> c \<Longrightarrow> ring_list c (replicate a x @ ys) 0 n = replicate n x"
  by (auto simp: ring_list_def list_eq_iff_nth_eq nth_append)

lemma getAvailableSamples_voiced:
  assumes "controlBuffer w = Some 0" "capacity w = 80000"
  shows "getAvailableSamples w voiced_memory = 2376"
  using assms by (simp add: getAvailableSamples_def voiced_memory_def Let_def)

lemma readFromBuffer_voiced:
  assumes "controlBuffer w = Some 0" "dataBuffer w = Some 0" "capacity w = 80000"
  shows "readFromBuffer w voiced_memory (replicate 2376 0)
   = (2376, replicate 2376 1, voiced_memory(0 := (voiced_memory 0)\<lparr>readPtr := 2376\<rparr>))"
proof -
  have "read_loop 80000 (replicate 2376 1 @ replicate 77624 0) 0 (replicate 2376 (0::real)) 0 2376
      = (replicate 2376 1, 2376)"
    using read_loop_ring[of 0 80000 0 2376 "replicate 2376 (0::real)"
        "replicate 2376 1 @ replicate 77624 0"]
    by (simp add: ring_list_replicate)
  then show ?thesis
    using assms by (simp add: readFromBuffer_def voiced_memory_def Let_def)
qed

lemma loop_iteration_voiced:
  assumes "isRunning w" "controlBuffer w = Some 0" "dataBuffer w = Some 0"
    "capacity w = 80000" "session w = Some s"
  shows "loop_iteration w voiced_memory [] now =
    (AwaitRun, replicate 2376 1, [], w\<lparr>lastVoicedTimestamp := now\<rparr>,
     voiced_memory(0 := (voiced_memory 0)\<lparr>readPtr := 2376\<rparr>))"
  using assms
  by (simp add: loop_iteration_def getAvailableSamples_voiced readFromBuffer_voiced
      INFERENCE_WINDOW_SAMPLES_def calculateRMS_replicate NOISE_GATE_THRESHOLD_def)

lemma run_append:
  "run (es @ es') sys = (case run es sys of None \<Rightarrow> None | Some sys' \<Rightarrow> run es' sys')"
  by (induction es arbitrary: sys) (simp_all split: option.splits)

lemma initializeBuffer_fits:
  assumes "cap \<le> length (sampleData (h buffer))"
  shows "initializeBuffer w h buffer cap =
           (None,
            w\<lparr>sharedBuffer := Some buffer, capacity := cap, controlBuffer := Some buffer,
              dataBuffer := Some buffer\<rparr>,
            [PostBufferInitialized])"
  using assms by (simp add: initializeBuffer_def Let_def)

lemma ready_system_eq:
  "ready_system =
     \<lparr>vars = (worker_new\<lparr>session := Some (InferenceSession [''input''] [''logits''])\<rparr>)
               \<lparr>sharedBuffer := Some 0, capacity := 80000, controlBuffer := Some 0,
                dataBuffer := Some 0\<rparr>,
      memory = voiced_memory, frames = [], outbox = []\<rparr>"
proof -
  have "(80000::nat) \<le> length (sampleData (voiced_memory 0))"
    by (simp add: voiced_memory_def)
  then show ?thesis
    by (simp only: ready_system_def initializeBuffer_fits snd_conv fst_conv)
qed

lemma inflight_reachable:
  "run [Message Start, Iterate 0 1000] ready_system =
     Some inflight_system"
  by (simp add: inflight_system_def ready_system_eq running_def onmessage_def worker_new_def
      probabilitySmoother_init_def EmaSmoother_new_def EmaSmoother_reset_def
      loop_iteration_voiced)













lemma runInference_settled_throws:
  "runInference_settled w (RunThrows message) =
     (None, [PostError (''Inference error: '' @ message)], w)"
  by (simp add: runInference_settled_def)

lemma runInference_settled_ok:
  "\<exists>r. runInference_settled w (RunOk logits latency) =
     (Some (fst (EmaSmoother_update (probabilitySmoother w) r), r,
            fst (getDominant (fst (EmaSmoother_update (probabilitySmoother w) r))),
            snd (getDominant (fst (EmaSmoother_update (probabilitySmoother w) r))), latency),
      [], w\<lparr>probabilitySmoother := snd (EmaSmoother_update (probabilitySmoother w) r)\<rparr>)"
  by (simp add: runInference_settled_def Let_def split: prod.splits)

lemma update_state_is_result:
  "state (snd (EmaSmoother_update s r)) = Some (fst (EmaSmoother_update s r))"
  by (simp add: EmaSmoother_update_def Let_def split: option.splits)

lemma loop_resume_run_throws:
  "loop_resume_run w buffer (RunThrows message) now =
     (buffer, [PostError (''Inference error: '' @ message)], w)"
  by (simp add: loop_resume_run_def runInference_settled_throws)

lemma loop_resume_run_ok:
  "\<exists>p w'. loop_resume_run w buffer (RunOk logits latency) now =
       (drop (min HOP_SIZE_SAMPLES (length buffer)) buffer, [PostPrediction p], w')
     \<and> timestamp p = now \<and> \<not> isSilence p \<and> inferenceTime p = latency
     \<and> state (probabilitySmoother w') = Some (emotions p)
     \<and> isRunning w' = isRunning w"
proof -
  obtain r where r: "runInference_settled w (RunOk logits latency) =
     (Some (fst (EmaSmoother_update (probabilitySmoother w) r), r,
            fst (getDominant (fst (EmaSmoother_update (probabilitySmoother w) r))),
            snd (getDominant (fst (EmaSmoother_update (probabilitySmoother w) r))), latency),
      [], w\<lparr>probabilitySmoother := snd (EmaSmoother_update (probabilitySmoother w) r)\<rparr>)"
    using runInference_settled_ok by blast
  show ?thesis
    unfolding loop_resume_run_def r by (simp add: update_state_is_result)
qed


lemma interpolate_loop_length: "length (interpolate_loop buf ratio phase n) = n"
  by (induction n arbitrary: phase) (simp_all add: Let_def)

lemma interpolate_loop_nth:
  "i < n \<Longrightarrow>
   interpolate_loop buf ratio phase n ! i =
     buf ! nat \<lfloor>phase + real i * ratio\<rfloor>
       * (1 - (phase + real i * ratio - real_of_int \<lfloor>phase + real i * ratio\<rfloor>))
     + buf ! nat (min (\<lfloor>phase + real i * ratio\<rfloor> + 1) (int (length buf) - 1))
       * (phase + real i * ratio - real_of_int \<lfloor>phase + real i * ratio\<rfloor>)"
proof (induction n arbitrary: phase i)
  case 0
  then show ?case by simp
next
  case (Suc n)
  show ?case
  proof (cases i)
    case 0
    then show ?thesis by (simp add: Let_def)
  next
    case (Suc j)
    then have "j < n" using Suc.prems by simp
    from Suc.IH[OF this, of "phase + ratio"] show ?thesis
      using Suc by (simp add: Let_def algebra_simps)
  qed
qed

lemma resample_reads_in_range:
  assumes "0 < ratio" "i < nat \<lfloor>real len / ratio\<rfloor>"
  shows "0 \<le> real i * ratio \<and> real i * ratio < real len"
proof -
  have "real i + 1 \<le> real_of_int \<lfloor>real len / ratio\<rfloor>"
    using assms(2) by linarith
  also have "\<dots> \<le> real len / ratio" by simp
  finally have "(real i + 1) * ratio \<le> real len"
    using assms(1) by (simp add: pos_le_divide_eq)
  then have "real i * ratio + ratio \<le> real len" by (simp add: algebra_simps)
  then show ?thesis using assms(1) by simp
qed

lemma resampleAudio_reads_in_range:
  assumes "0 < ratio" "0 < len" "i < nat (max 1 (Math_round (real len / ratio)))"
  shows "0 \<le> real i * ratio \<and> real i * ratio < real len"
proof (cases "i = 0")
  case True
  then show ?thesis using assms(2) by simp
next
  case False
  then have "real i + 1 \<le> real_of_int (Math_round (real len / ratio))"
    using assms(3) by linarith
  also have "\<dots> \<le> real len / ratio + 1 / 2" by (simp add: Math_round_def)
  finally have "real i + 1 / 2 \<le> real len / ratio" by simp
  then have "(real i + 1 / 2) * ratio \<le> real len"
    using assms(1) by (simp add: pos_le_divide_eq)
  then have "real i * ratio + ratio / 2 \<le> real len" by (simp add: algebra_simps)
  then show ?thesis using assms(1) by simp
qed

lemma interpolate_integer_ratio:
  "interpolate_loop buf (real n) 0 k = map (\<lambda>i. buf ! (i * n)) [0..<k]"
proof (rule nth_equalityI)
  show "length (interpolate_loop buf (real n) 0 k) = length (map (\<lambda>i. buf ! (i * n)) [0..<k])"
    by (simp add: interpolate_loop_length)
next
  fix i assume "i < length (interpolate_loop buf (real n) 0 k)"
  then have i: "i < k" by (simp add: interpolate_loop_length)
  have "\<lfloor>real i * real n\<rfloor> = int (i * n)"
    by (metis floor_of_nat of_nat_mult)
  then have f: "\<lfloor>real i * real n\<rfloor> = int i * int n" by simp
  have "interpolate_loop buf (real n) 0 k ! i = buf ! (i * n)"
    unfolding interpolate_loop_nth[OF i] by (simp add: f nat_mult_distrib)
  then show "interpolate_loop buf (real n) 0 k ! i = map (\<lambda>i. buf ! (i * n)) [0..<k] ! i"
    using i by simp
qed

lemma resample_integer_ratio:
  assumes "0 < n" "resampleRatio p = real n"
  shows "resample p block =
    (map (\<lambda>i. (resampleBuffer p @ block) ! (i * n))
       [0..<length (resampleBuffer p @ block) div n],
     p\<lparr>resampleBuffer :=
         drop (length (resampleBuffer p @ block) div n * n) (resampleBuffer p @ block)\<rparr>)"
proof -
  let ?buf = "resampleBuffer p @ block"
  have fl: "\<lfloor>real (length ?buf) / real n\<rfloor> = int (length ?buf div n)"
    by (rule floor_divide_of_nat_eq)
  have cons: "\<lfloor>real_of_int (int (length ?buf div n)) * real n\<rfloor> = int (length ?buf div n * n)"
    by (metis floor_of_nat of_nat_mult of_int_of_nat_eq)
  show ?thesis
  proof (cases "length ?buf < n")
    case True
    then show ?thesis using assms by (simp add: resample_def Let_def)
  next
    case False
    then have "\<not> real (length ?buf) < real n" by simp
    then show ?thesis
      using assms fl cons
      by (simp add: resample_def Let_def interpolate_integer_ratio nat_mult_distrib
          del: length_append)
  qed
qed


lemma resample_blocks_integer_ratio:
  assumes "0 < n" "resampleRatio p = real n"
    and "resampleBuffer p = drop (length X div n * n) X"
  shows "fst (resample_blocks p blocks) =
           map (\<lambda>i. (X @ concat blocks) ! (i * n))
             [length X div n..<length (X @ concat blocks) div n]"
  using assms(2,3)
proof (induction blocks arbitrary: p X)
  case Nil
  then show ?case by simp
next
  case (Cons b bs)
  let ?q = "length X div n"
  let ?buf = "resampleBuffer p @ b"
  let ?m = "length ?buf div n"
  let ?p' = "p\<lparr>resampleBuffer := drop (?m * n) ?buf\<rparr>"
  have qn: "?q * n \<le> length X" by simp
  have buf: "?buf = drop (?q * n) (X @ b)"
    using Cons.prems(2) qn by simp
  have "length ?buf = length (X @ b) - ?q * n"
    unfolding buf by simp
  moreover have "?q * n \<le> length X + length b"
    by (rule trans_le_add1[OF qn])
  ultimately have len: "length ?buf + ?q * n = length (X @ b)"
    by (simp only: length_append)
  have div: "length (X @ b) div n = ?q + ?m"
    using len assms(1) by (metis add.commute div_mult_self3 less_numeral_extra(3))
  have r: "resample p b = (map (\<lambda>i. ?buf ! (i * n)) [0..<?m], ?p')"
    using resample_integer_ratio[OF assms(1) Cons.prems(1)] .
  have ratio': "resampleRatio ?p' = real n" using Cons.prems(1) by simp
  have buffer': "resampleBuffer ?p' = drop (length (X @ b) div n * n) (X @ b)"
    unfolding div buf by (simp add: add_mult_distrib add.commute)
  note IH = Cons.IH[OF ratio' buffer']
  have mn: "?m * n \<le> length ?buf" by simp
  have out: "map (\<lambda>i. ?buf ! (i * n)) [0..<?m]
      = map (\<lambda>i. (X @ concat (b # bs)) ! (i * n)) [?q..<?q + ?m]"
  proof (rule nth_equalityI)
    show "length (map (\<lambda>i. ?buf ! (i * n)) [0..<?m])
        = length (map (\<lambda>i. (X @ concat (b # bs)) ! (i * n)) [?q..<?q + ?m])"
      by simp
  next
    fix i assume "i < length (map (\<lambda>i. ?buf ! (i * n)) [0..<?m])"
    then have i: "i < ?m" by simp
    have "i * n < Suc i * n" using assms(1) by simp
    also have "\<dots> \<le> ?m * n" using i by (intro mult_le_mono1) simp
    also have "\<dots> \<le> length ?buf" by (rule mn)
    finally have "i * n < length ?buf" .
    then have in_range: "?q * n + i * n < length (X @ b)" using len by simp
    have "?q * n \<le> length (X @ b)"
      using in_range by linarith
    then have "drop (?q * n) (X @ b) ! (i * n) = (X @ b) ! (?q * n + i * n)"
      by (rule nth_drop)
    then have "?buf ! (i * n) = (X @ b) ! (?q * n + i * n)"
      by (simp only: buf)
    also have "\<dots> = ((X @ b) @ concat bs) ! (?q * n + i * n)"
      using in_range by (simp only: nth_append if_True)
    finally show "map (\<lambda>i. ?buf ! (i * n)) [0..<?m] ! i
        = map (\<lambda>i. (X @ concat (b # bs)) ! (i * n)) [?q..<?q + ?m] ! i"
      using i by (simp add: add_mult_distrib)
  qed
  have le: "?q + ?m \<le> length (X @ concat (b # bs)) div n"
    using div by (metis append.assoc concat.simps(2) div_le_mono le_add1 length_append)
  have "fst (resample_blocks p (b # bs)) =
      map (\<lambda>i. ?buf ! (i * n)) [0..<?m] @ fst (resample_blocks ?p' bs)"
    by (simp add: r split: prod.splits)
  also have "\<dots> = map (\<lambda>i. (X @ concat (b # bs)) ! (i * n)) [?q..<?q + ?m]
      @ map (\<lambda>i. (X @ concat (b # bs)) ! (i * n))
          [?q + ?m..<length (X @ concat (b # bs)) div n]"
    unfolding out IH div by simp
  also have "\<dots> = map (\<lambda>i. (X @ concat (b # bs)) ! (i * n))
      [?q..<length (X @ concat (b # bs)) div n]"
  proof -
    have "[?q..<length (X @ concat (b # bs)) div n]
        = [?q..<?q + ?m] @ [?q + ?m..<length (X @ concat (b # bs)) div n]"
      using le by (metis le_add1 le_add_diff_inverse upt_add_eq_append)
    then show ?thesis by (simp only: map_append)
  qed
  finally show ?case .
qed

lemma resampleAudio_integer_ratio:
  assumes "0 < n"
  shows "\<exists>batch. resampleAudio S (real n * 16000) 16000 = Inr batch
           \<and> take (length S div n) batch = map (\<lambda>i. S ! (i * n)) [0..<length S div n]"
proof (cases "S = [] \<or> n = 1")
  case True
  then show ?thesis by (auto simp: resampleAudio_def map_nth)
next
  case False
  then have n: "real n * 16000 \<noteq> 16000" "length S \<noteq> 0" "real n \<noteq> 0"
    using assms by auto
  let ?k = "nat (max 1 (Math_round (real (length S) / real n)))"
  have batch: "resampleAudio S (real n * 16000) 16000 = Inr (map (\<lambda>i. S ! (i * n)) [0..<?k])"
    using n by (simp add: resampleAudio_def Let_def interpolate_integer_ratio)
  have "int (length S div n) = \<lfloor>real (length S) / real n\<rfloor>"
    by (simp add: floor_divide_of_nat_eq)
  also have "\<dots> \<le> Math_round (real (length S) / real n)"
    unfolding Math_round_def by (rule floor_mono) simp
  finally have "length S div n \<le> ?k" by linarith
  then have "take (length S div n) (map (\<lambda>i. S ! (i * n)) [0..<?k])
      = map (\<lambda>i. S ! (i * n)) [0..<length S div n]"
    by (simp add: take_map min_def)
  then show ?thesis using batch by blast
qed

lemma resample_blocks_from_new:
  assumes "0 < n"
  shows "fst (resample_blocks (AudioProcessor_new (real n * 16000)) blocks) =
           map (\<lambda>i. concat blocks ! (i * n)) [0..<length (concat blocks) div n]"
  using resample_blocks_integer_ratio[OF assms, of "AudioProcessor_new (real n * 16000)" "[]"
      blocks]
  by (simp add: AudioProcessor_new_def)

lemma length_ramp: "length (ramp a b) = b - a"
  by (simp add: ramp_def)

lemma nth_ramp: "i < b - a \<Longrightarrow> ramp a b ! i = real (a + i)"
  by (simp add: ramp_def)

lemma drop_ramp: "drop k (ramp a b) = ramp (a + k) b"
  by (simp add: ramp_def drop_map add.commute)

lemma first_block:
  "resample (AudioProcessor_new 44100) (ramp 0 128) =
     (interpolate_loop (ramp 0 128) (441 / 160) 0 46,
      (AudioProcessor_new 44100)\<lparr>resampleBuffer := ramp 126 128\<rparr>)"
  by (simp add: resample_def AudioProcessor_new_def Let_def drop_ramp length_ramp)

lemma second_block:
  "resample ((AudioProcessor_new 44100)\<lparr>resampleBuffer := ramp 126 128\<rparr>) (ramp 128 256) =
     (interpolate_loop (ramp 126 128 @ ramp 128 256) (441 / 160) 0 47,
      (AudioProcessor_new 44100)\<lparr>resampleBuffer := drop 129 (ramp 126 128 @ ramp 128 256)\<rparr>)"
  by (simp add: resample_def AudioProcessor_new_def Let_def length_ramp)

text \<open>
  Claim C10. While the views on the shared buffer are not attached (or, for the capture
  processor, it is not initialised), \<open>writeToBuffer\<close> returns 0, \<open>readFromBuffer\<close> returns 0
  and leaves the destination as it was, \<open>getAvailableSamples\<close> returns 0, and the shared
  memory, cursors included, is what it was before the call.
\<close>

theorem uninitialized_buffer_noop:
  "(\<not> isInitialized p \<or> controlBuffer p = None \<or> dataBuffer p = None \<longrightarrow>
      writeToBuffer p h samples = (0, h))
   \<and> (controlBuffer w = None \<or> dataBuffer w = None \<longrightarrow>
        readFromBuffer w h destination = (0, destination, h))
   \<and> (controlBuffer w = None \<longrightarrow> getAvailableSamples w h = 0)"
  by (simp add: writeToBuffer_def readFromBuffer_def getAvailableSamples_def)

theorem uninitialized_buffer_noop_witness:
  "\<not> isInitialized (AudioProcessor_new 48000)
   \<and> controlBuffer worker_new = None
   \<and> writeToBuffer (AudioProcessor_new 48000) voiced_memory [1, 2, 3] = (0, voiced_memory)
   \<and> readFromBuffer worker_new voiced_memory [0, 0] = (0, [0, 0], voiced_memory)
   \<and> getAvailableSamples worker_new voiced_memory = 0"
  using uninitialized_buffer_noop[of "AudioProcessor_new 48000" voiced_memory "[1, 2, 3]"
      worker_new "[0, 0]"]
  by (simp add: AudioProcessor_new_def worker_new_def)

text \<open>
  Claim C4, as the code has it. When the model invocation of a hop throws, the hop posts
  an error and no prediction, and the rolling buffer is left exactly as it was: the worker
  loop goes on to its sleep with the same \<open>sampleBuffer\<close>, and on the main thread
  \<open>runInference\<close> returns null and \<open>processAudio\<close> leaves the store, its \<open>audioBuffer\<close>
  included, untouched. The buffer advances by the hop size on the hops that produce a
  result.
\<close>

theorem failed_hop_keeps_buffer:
  "(\<not> running sys \<and> i < length (frames sys) \<and> pc (frames sys ! i) = AwaitRun \<longrightarrow>
      step (RunSettled i (RunThrows message) now) sys =
        Some (sys\<lparr>frames := (frames sys)[i := \<lparr>sampleBuffer = sampleBuffer (frames sys ! i),
                                               pc = AwaitSleep\<rparr>],
                  outbox := outbox sys @ [PostError (''Inference error: '' @ message)]\<rparr>)
      \<and> (\<exists>sys' p. step (RunSettled i (RunOk logits latency) now) sys = Some sys'
             \<and> sampleBuffer (frames sys' ! i) =
                 drop (min HOP_SIZE_SAMPLES (length (sampleBuffer (frames sys ! i))))
                   (sampleBuffer (frames sys ! i))
             \<and> outbox sys' = outbox sys @ [PostPrediction p]))
   \<and> runInference_main_settled m (RunThrows message) now = (None, m)
   \<and> processAudio_resume st snapshot None = st
   \<and> audioBuffer (processAudio_resume st snapshot (Some r))
       = drop (min getHopSize (length snapshot)) snapshot"
proof -
  have a: "\<not> running sys \<and> i < length (frames sys) \<and> pc (frames sys ! i) = AwaitRun \<Longrightarrow>
      step (RunSettled i (RunThrows message) now) sys =
        Some (sys\<lparr>frames := (frames sys)[i := \<lparr>sampleBuffer = sampleBuffer (frames sys ! i),
                                               pc = AwaitSleep\<rparr>],
                  outbox := outbox sys @ [PostError (''Inference error: '' @ message)]\<rparr>)"
    by (simp add: loop_resume_run_throws)
  have b: "\<not> running sys \<and> i < length (frames sys) \<and> pc (frames sys ! i) = AwaitRun \<Longrightarrow>
      \<exists>sys' p. step (RunSettled i (RunOk logits latency) now) sys = Some sys'
             \<and> sampleBuffer (frames sys' ! i) =
                 drop (min HOP_SIZE_SAMPLES (length (sampleBuffer (frames sys ! i))))
                   (sampleBuffer (frames sys ! i))
             \<and> outbox sys' = outbox sys @ [PostPrediction p]"
  proof -
    assume h: "\<not> running sys \<and> i < length (frames sys) \<and> pc (frames sys ! i) = AwaitRun"
    obtain p w' where
      "loop_resume_run (vars sys) (sampleBuffer (frames sys ! i)) (RunOk logits latency) now =
       (drop (min HOP_SIZE_SAMPLES (length (sampleBuffer (frames sys ! i))))
          (sampleBuffer (frames sys ! i)), [PostPrediction p], w')"
      using loop_resume_run_ok[of "vars sys" "sampleBuffer (frames sys ! i)" logits latency now]
      by blast
    then show ?thesis using h by simp
  qed
  have c: "runInference_main_settled m (RunThrows message) now = (None, m)"
    by (simp add: runInference_main_settled_def)
  have d: "processAudio_resume st snapshot None = st"
    by (simp add: processAudio_resume_def)
  have e: "audioBuffer (processAudio_resume st snapshot (Some r))
       = drop (min getHopSize (length snapshot)) snapshot"
    by (simp add: processAudio_resume_def)
  show ?thesis using a b c d e by blast
qed

theorem failed_hop_keeps_buffer_witness:
  "\<not> running \<lparr>vars = vars ready_system, memory = voiced_memory,
               frames = [\<lparr>sampleBuffer = [1, 2, 3], pc = AwaitRun\<rparr>], outbox = []\<rparr>
   \<and> (0::nat) < length [\<lparr>sampleBuffer = [1, 2, 3::real], pc = AwaitRun\<rparr>]
   \<and> map_option frames (step (RunSettled 0 (RunThrows ''x'') 7)
        \<lparr>vars = vars ready_system, memory = voiced_memory,
          frames = [\<lparr>sampleBuffer = [1, 2, 3], pc = AwaitRun\<rparr>], outbox = []\<rparr>)
      = Some [\<lparr>sampleBuffer = [1, 2, 3], pc = AwaitSleep\<rparr>]"
  using failed_hop_keeps_buffer[of
      "\<lparr>vars = vars ready_system, memory = voiced_memory,
        frames = [\<lparr>sampleBuffer = [1, 2, 3], pc = AwaitRun\<rparr>], outbox = []\<rparr>" 0 "''x''" 7]
  by (simp add: running_def)

text \<open>A started worker drains one voiced window, the model call on it throws: the
  frame keeps all 2376 samples, where an advance by the hop would have left one.\<close>

theorem failed_hop_leaves_buffer_in_place:
  "run failing_hop ready_system \<noteq> None
   \<and> outbox (the (run failing_hop ready_system)) =
       [PostStarted, PostError ''Inference error: model failed'']
   \<and> frames (the (run failing_hop ready_system)) =
       [\<lparr>sampleBuffer = replicate 2376 1, pc = AwaitSleep\<rparr>]
   \<and> replicate 2376 (1::real) \<noteq> drop HOP_SIZE_SAMPLES (replicate 2376 1)"
proof -
  have "run ([Message Start, Iterate 0 1000] @
           [RunSettled 0 (RunThrows ''model failed'') 1200]) ready_system
    = run [RunSettled 0 (RunThrows ''model failed'') 1200] inflight_system"
    unfolding run_append inflight_reachable by simp
  then have "run failing_hop ready_system
    = run [RunSettled 0 (RunThrows ''model failed'') 1200] inflight_system"
    by (simp add: failing_hop_def)
  then have trace: "run failing_hop ready_system \<noteq> None
   \<and> outbox (the (run failing_hop ready_system)) =
       [PostStarted, PostError ''Inference error: model failed'']
   \<and> frames (the (run failing_hop ready_system)) =
       [\<lparr>sampleBuffer = replicate 2376 1, pc = AwaitSleep\<rparr>]"
    by (simp add: inflight_system_def running_def loop_resume_run_def runInference_settled_def)
  have "length (replicate 2376 (1::real)) \<noteq> length (drop HOP_SIZE_SAMPLES (replicate 2376 (1::real)))"
    by (simp add: HOP_SIZE_SAMPLES_value)
  then have "replicate 2376 (1::real) \<noteq> drop HOP_SIZE_SAMPLES (replicate 2376 1)"
    by metis
  with trace show ?thesis by blast
qed

text \<open>
  Claim C3, as the code has it. Processing \<open>stop\<close> clears \<open>isRunning\<close>, the smoothing state
  and the voiced timestamp and posts \<open>stopped\<close>; a pass of the loop that begins while
  \<open>isRunning\<close> is false ends the loop without reading, posting or calling the model. An
  inference call in flight is not discarded: when it settles with logits, its prediction
  is posted and written into the smoothing state, whatever \<open>isRunning\<close> is by then.
  Processing \<open>start\<close> clears the smoothing state and the voiced timestamp again.
\<close>

theorem stop_semantics:
  "(\<not> running sys \<longrightarrow>
      (\<exists>sys'. step (Message Stop) sys = Some sys'
         \<and> \<not> isRunning (vars sys')
         \<and> state (probabilitySmoother (vars sys')) = None
         \<and> lastVoicedTimestamp (vars sys') = 0
         \<and> frames sys' = frames sys
         \<and> outbox sys' = outbox sys @ [PostStopped]))
   \<and> (i < length (frames sys) \<and> pc (frames sys ! i) = LoopTop \<and> \<not> isRunning (vars sys) \<longrightarrow>
        step (Iterate i now) sys =
          Some (sys\<lparr>frames := (frames sys)[i := \<lparr>sampleBuffer = sampleBuffer (frames sys ! i),
                                                 pc = LoopDone\<rparr>]\<rparr>))
   \<and> (\<not> running sys \<and> i < length (frames sys) \<and> pc (frames sys ! i) = AwaitRun \<longrightarrow>
        (\<exists>sys' p. step (RunSettled i (RunOk logits latency) now) sys = Some sys'
           \<and> outbox sys' = outbox sys @ [PostPrediction p]
           \<and> timestamp p = now \<and> \<not> isSilence p
           \<and> state (probabilitySmoother (vars sys')) = Some (emotions p)
           \<and> isRunning (vars sys') = isRunning (vars sys)))
   \<and> (\<not> running sys \<and> session (vars sys) \<noteq> None \<and> sharedBuffer (vars sys) \<noteq> None \<longrightarrow>
        (\<exists>sys'. step (Message Start) sys = Some sys'
           \<and> isRunning (vars sys')
           \<and> state (probabilitySmoother (vars sys')) = None
           \<and> lastVoicedTimestamp (vars sys') = 0))"
proof -
  have a: "\<not> running sys \<Longrightarrow>
      (\<exists>sys'. step (Message Stop) sys = Some sys'
         \<and> \<not> isRunning (vars sys')
         \<and> state (probabilitySmoother (vars sys')) = None
         \<and> lastVoicedTimestamp (vars sys') = 0
         \<and> frames sys' = frames sys
         \<and> outbox sys' = outbox sys @ [PostStopped])"
    by (simp add: onmessage_def EmaSmoother_reset_def)
  have b: "i < length (frames sys) \<and> pc (frames sys ! i) = LoopTop \<and> \<not> isRunning (vars sys) \<Longrightarrow>
        step (Iterate i now) sys =
          Some (sys\<lparr>frames := (frames sys)[i := \<lparr>sampleBuffer = sampleBuffer (frames sys ! i),
                                                 pc = LoopDone\<rparr>]\<rparr>)"
    by (simp add: loop_iteration_def)
  have c: "\<not> running sys \<and> i < length (frames sys) \<and> pc (frames sys ! i) = AwaitRun \<Longrightarrow>
        (\<exists>sys' p. step (RunSettled i (RunOk logits latency) now) sys = Some sys'
           \<and> outbox sys' = outbox sys @ [PostPrediction p]
           \<and> timestamp p = now \<and> \<not> isSilence p
           \<and> state (probabilitySmoother (vars sys')) = Some (emotions p)
           \<and> isRunning (vars sys') = isRunning (vars sys))"
  proof -
    assume h: "\<not> running sys \<and> i < length (frames sys) \<and> pc (frames sys ! i) = AwaitRun"
    obtain p w' where
      "loop_resume_run (vars sys) (sampleBuffer (frames sys ! i)) (RunOk logits latency) now =
       (drop (min HOP_SIZE_SAMPLES (length (sampleBuffer (frames sys ! i))))
          (sampleBuffer (frames sys ! i)), [PostPrediction p], w')"
      "timestamp p = now" "\<not> isSilence p"
      "state (probabilitySmoother w') = Some (emotions p)"
      "isRunning w' = isRunning (vars sys)"
      using loop_resume_run_ok[of "vars sys" "sampleBuffer (frames sys ! i)" logits latency now]
      by blast
    then show ?thesis using h by simp
  qed
  have d: "\<not> running sys \<and> session (vars sys) \<noteq> None \<and> sharedBuffer (vars sys) \<noteq> None \<Longrightarrow>
        (\<exists>sys'. step (Message Start) sys = Some sys'
           \<and> isRunning (vars sys')
           \<and> state (probabilitySmoother (vars sys')) = None
           \<and> lastVoicedTimestamp (vars sys') = 0)"
    by (auto simp: onmessage_def EmaSmoother_reset_def)
  show ?thesis using a b c d by blast
qed

theorem stop_semantics_witness:
  "\<not> running inflight_system
   \<and> (0::nat) < length (frames inflight_system)
   \<and> pc (frames inflight_system ! 0) = AwaitRun
   \<and> map_option outbox (step (Message Stop) inflight_system) = Some [PostStarted, PostStopped]
   \<and> map_option (\<lambda>sys. length (outbox sys))
        (step (RunSettled 0 (RunOk [0, 0, 0, 0, 0, 0, 0, 0] 5) 1200) inflight_system) = Some 2
   \<and> pc (frames (ready_system\<lparr>frames := [\<lparr>sampleBuffer = [1], pc = LoopTop\<rparr>]\<rparr>) ! 0) = LoopTop
   \<and> \<not> isRunning (vars (ready_system\<lparr>frames := [\<lparr>sampleBuffer = [1], pc = LoopTop\<rparr>]\<rparr>))
   \<and> map_option frames
        (step (Iterate 0 1300) (ready_system\<lparr>frames := [\<lparr>sampleBuffer = [1], pc = LoopTop\<rparr>]\<rparr>))
      = Some [\<lparr>sampleBuffer = [1], pc = LoopDone\<rparr>]
   \<and> \<not> running ready_system
   \<and> session (vars ready_system) \<noteq> None \<and> sharedBuffer (vars ready_system) \<noteq> None
   \<and> map_option (\<lambda>sys. isRunning (vars sys)) (step (Message Start) ready_system) = Some True"
  using stop_semantics[of inflight_system 0 1200 "[0, 0, 0, 0, 0, 0, 0, 0]" 5]
    stop_semantics[of "ready_system\<lparr>frames := [\<lparr>sampleBuffer = [1], pc = LoopTop\<rparr>]\<rparr>" 0 1300]
    stop_semantics[of ready_system]
  by (auto simp: inflight_system_def ready_system_eq running_def worker_new_def)

text \<open>\<open>stop\<close> arrives while the model call of the first hop is in flight; the call then
  settles. The prediction of that hop is posted after \<open>stopped\<close>, and the smoothing state
  that \<open>stop\<close> had cleared holds it.\<close>

theorem stop_does_not_discard_in_flight_result:
  "run stop_mid_hop ready_system \<noteq> None
   \<and> outbox (the (run stop_mid_hop ready_system)) =
       [PostStarted, PostStopped,
        PostPrediction
          \<lparr>emotions = [(''angry'', 1 / 8), (''disgust'', 1 / 8), (''fearful'', 1 / 8),
                       (''happy'', 1 / 8), (''neutral'', 1 / 8), (''sad'', 1 / 8),
                       (''surprised'', 1 / 8), (''calm'', 1 / 8)],
           rawEmotions = [(''angry'', 1 / 8), (''disgust'', 1 / 8), (''fearful'', 1 / 8),
                          (''happy'', 1 / 8), (''neutral'', 1 / 8), (''sad'', 1 / 8),
                          (''surprised'', 1 / 8), (''calm'', 1 / 8)],
           dominant = ''angry'', confidence = 1 / 8, inferenceTime = 5,
           timestamp = 1200, isSilence = False\<rparr>]
   \<and> \<not> isRunning (vars (the (run stop_mid_hop ready_system)))
   \<and> state (probabilitySmoother (vars (the (run stop_mid_hop ready_system)))) =
       Some [(''angry'', 1 / 8), (''disgust'', 1 / 8), (''fearful'', 1 / 8),
             (''happy'', 1 / 8), (''neutral'', 1 / 8), (''sad'', 1 / 8),
             (''surprised'', 1 / 8), (''calm'', 1 / 8)]"
proof -
  have "run ([Message Start, Iterate 0 1000] @ [Message Stop,
           RunSettled 0 (RunOk [0, 0, 0, 0, 0, 0, 0, 0] 5) 1200]) ready_system
    = run [Message Stop, RunSettled 0 (RunOk [0, 0, 0, 0, 0, 0, 0, 0] 5) 1200]
        inflight_system"
    unfolding run_append inflight_reachable by simp
  then have "run stop_mid_hop ready_system
    = run [Message Stop, RunSettled 0 (RunOk [0, 0, 0, 0, 0, 0, 0, 0] 5) 1200]
        inflight_system"
    by (simp add: stop_mid_hop_def)
  then show ?thesis
    by (simp add: inflight_system_def ready_system_eq running_def onmessage_def
      worker_new_def
      probabilitySmoother_init_def EmaSmoother_new_def EmaSmoother_reset_def
      loop_resume_run_def runInference_settled_def EmaSmoother_update_def getDominant_def
      EMOTION_LABELS_def Let_def enumerate_eq_zip HOP_SIZE_SAMPLES_value)
qed





text \<open>
  Claim C8, as the code has it. When the hardware rate is a whole multiple \<open>n\<close> of the
  16 kHz target (the 48000 Hz the recorder opens its audio context with gives \<open>n = 3\<close>),
  then for every partition of an input signal into successive blocks the outputs of the
  capture processor's \<open>resample\<close> calls, concatenated, are the first
  \<open>floor(total / n)\<close> samples of the one-call resampling of the whole signal: every
  \<open>n\<close>-th input sample. The input samples that do not yet make an output sample are
  carried to the next call, and the one-call resampling, which rounds its length, can
  have one sample more. At a whole-number ratio every source position is an index, the
  interpolation weight of the next sample is 0 and the output sample is a copy of an
  input sample. The claim is about whole-number ratios only: no fractional phase is kept
  from call to call.
\<close>

theorem streaming_matches_batch_at_integer_ratio:
  assumes "0 < n"
  shows "\<exists>batch. resampleAudio (concat blocks) (real n * 16000) 16000 = Inr batch
           \<and> fst (resample_blocks (AudioProcessor_new (real n * 16000)) blocks)
               = take (length (concat blocks) div n) batch
           \<and> fst (resample_blocks (AudioProcessor_new (real n * 16000)) blocks)
               = map (\<lambda>i. concat blocks ! (i * n)) [0..<length (concat blocks) div n]"
proof -
  obtain batch where b: "resampleAudio (concat blocks) (real n * 16000) 16000 = Inr batch"
    "take (length (concat blocks) div n) batch
       = map (\<lambda>i. concat blocks ! (i * n)) [0..<length (concat blocks) div n]"
    using resampleAudio_integer_ratio[OF assms, of "concat blocks"] by blast
  show ?thesis
    using b resample_blocks_from_new[OF assms, of blocks] by simp
qed

theorem streaming_matches_batch_at_integer_ratio_witness:
  "(0::nat) < 3
   \<and> resampleAudio [10, 11, 12, 13, 14, 15, 16, 17] 48000 16000 = Inr [10, 13, 16]
   \<and> fst (resample_blocks (AudioProcessor_new 48000) [[10, 11, 12, 13, 14], [15, 16, 17]])
       = [10, 13]
   \<and> fst (resample_blocks (AudioProcessor_new 48000) [[10], [11, 12, 13, 14, 15, 16], [17]])
       = [10, 13]"
  using streaming_matches_batch_at_integer_ratio[of 3 "[[10, 11, 12, 13, 14], [15, 16, 17]]"]
    streaming_matches_batch_at_integer_ratio[of 3 "[[10], [11, 12, 13, 14, 15, 16], [17]]"]
  by (simp add: resampleAudio_def Math_round_def Let_def interpolate_integer_ratio[of _ 3, simplified]
      upt_rec[of _ "numeral k" for k] upt_rec[of _ "Suc k" for k])

text \<open>
  Claim C8 says it of every partition, with the fractional phase carried from call to
  call. The code does not carry it, and at a ratio that is not a whole number the outputs
  differ. At a hardware rate of 44100 Hz the ratio is 441/160; two callbacks deliver the
  128-sample blocks of the ramp 0, 1, \<dots>, 255. The first call emits 46 samples and
  consumes \<open>floor(46 * 441/160)\<close> = 126 inputs; the second call starts its phase at 0 on
  input 126, so output 46 of the stream is the sample 126. Resampling the 256 samples in
  one call puts output 46 at source position \<open>46 * 441/160\<close> = 126.7875, between the
  samples 126 and 127. Both outputs have 93 samples: the difference is not one of length.
\<close>

theorem streaming_resample_restarts_phase:
  "resampleAudio (ramp 0 256) 44100 16000
     = Inr (interpolate_loop (ramp 0 256) (441 / 160) 0 93)
   \<and> length (interpolate_loop (ramp 0 256) (441 / 160) 0 93) = 93
   \<and> 126 < interpolate_loop (ramp 0 256) (441 / 160) 0 93 ! 46
   \<and> interpolate_loop (ramp 0 256) (441 / 160) 0 93 ! 46 < 127
   \<and> length (fst (resample_blocks (AudioProcessor_new 44100) [ramp 0 128, ramp 128 256])) = 93
   \<and> fst (resample_blocks (AudioProcessor_new 44100) [ramp 0 128, ramp 128 256]) ! 46 = 126
   \<and> resampleAudio (ramp 0 256) 44100 16000
       \<noteq> Inr (fst (resample_blocks (AudioProcessor_new 44100) [ramp 0 128, ramp 128 256]))"
proof -
  have blocks: "fst (resample_blocks (AudioProcessor_new 44100) [ramp 0 128, ramp 128 256])
     = interpolate_loop (ramp 0 128) (441 / 160) 0 46
       @ interpolate_loop (ramp 126 128 @ ramp 128 256) (441 / 160) 0 47"
    by (simp only: resample_blocks.simps first_block second_block prod.case fst_conv
        append_Nil2)
  have whole: "resampleAudio (ramp 0 256) 44100 16000
     = Inr (interpolate_loop (ramp 0 256) (441 / 160) 0 93)"
    by (simp add: resampleAudio_def Math_round_def Let_def length_ramp)
  have l1: "length (fst (resample_blocks (AudioProcessor_new 44100)
             [ramp 0 128, ramp 128 256])) = 93"
    unfolding blocks by (simp add: interpolate_loop_length)
  have l2: "length (interpolate_loop (ramp 0 256) (441 / 160) 0 93) = 93"
    by (simp add: interpolate_loop_length)
  have "(0::nat) < 47" by simp
  from interpolate_loop_nth[OF this, of "ramp 126 128 @ ramp 128 256" "441 / 160" 0]
  have s: "fst (resample_blocks (AudioProcessor_new 44100) [ramp 0 128, ramp 128 256]) ! 46
      = 126"
    unfolding blocks
    by (simp add: nth_append interpolate_loop_length length_ramp nth_ramp)
  have "(46::nat) < 93" by simp
  from interpolate_loop_nth[OF this, of "ramp 0 256" "441 / 160" 0]
  have b: "interpolate_loop (ramp 0 256) (441 / 160) 0 93 ! 46 = 10143 / 80"
    by (simp add: length_ramp nth_ramp)
  have "fst (resample_blocks (AudioProcessor_new 44100) [ramp 0 128, ramp 128 256]) ! 46
      \<noteq> interpolate_loop (ramp 0 256) (441 / 160) 0 93 ! 46"
    unfolding s b by simp
  then have "fst (resample_blocks (AudioProcessor_new 44100) [ramp 0 128, ramp 128 256])
       \<noteq> interpolate_loop (ramp 0 256) (441 / 160) 0 93"
    by metis
  then have d: "resampleAudio (ramp 0 256) 44100 16000
       \<noteq> Inr (fst (resample_blocks (AudioProcessor_new 44100) [ramp 0 128, ramp 128 256]))"
    unfolding whole by simp
  have b': "126 < interpolate_loop (ramp 0 256) (441 / 160) 0 93 ! 46"
    "interpolate_loop (ramp 0 256) (441 / 160) 0 93 ! 46 < 127"
    unfolding b by simp_all
  show ?thesis using whole l1 l2 s b' d by blast
qed

end
